theory Spec2Isabelle
  imports Complex_Main "HOL-Library.Char_ord" "HOL-Library.List_Lexorder"
begin

section \<open>merge\_animations.py: the runtime patch\<close>

text \<open>
  The script \<^verbatim>\<open>apps/web/scripts/blender/merge_animations.py\<close> sequences calls into the
  host application. The host is not part of the repository: each host call is
  modelled by what the script observes of it. Where the script guards a host call
  with \<^verbatim>\<open>try/except Exception\<close>, the call may raise, and whether it does is a field
  of a record describing the host.
\<close>

datatype pyval = PyNone | PyBool bool | PyStr string

type_synonym pyobj = "string \<rightharpoonup> pyval"

text \<open>
  A class attribute is either one the host registered itself, or a Python
  \<^verbatim>\<open>property(fget, fset)\<close>.
\<close>

datatype attr = Native | Property "pyobj \<Rightarrow> pyval" "pyobj \<Rightarrow> pyval \<Rightarrow> pyval"

type_synonym pyclass = "string \<rightharpoonup> attr"

definition hasattr :: "pyclass \<Rightarrow> string \<Rightarrow> bool" where
  "hasattr cls name = (cls name \<noteq> None)"

text \<open>\<^verbatim>\<open>property(lambda self: True, lambda self, v: None)\<close>, line 49.\<close>

definition cast_shadow_mock :: attr where
  "cast_shadow_mock = Property (\<lambda>self. PyBool True) (\<lambda>self v. PyNone)"

text \<open>
  Reading and writing an attribute of an object: a property of the class
  takes precedence over the object's own dictionary; the setter's return
  value is dropped and the object stays as it was.
\<close>

definition read_attr :: "pyclass \<Rightarrow> pyobj \<Rightarrow> string \<Rightarrow> pyval option" where
  "read_attr cls inst name =
     (case cls name of
        Some (Property fget fset) \<Rightarrow> Some (fget inst)
      | _ \<Rightarrow> inst name)"

definition write_attr :: "pyclass \<Rightarrow> pyobj \<Rightarrow> string \<Rightarrow> pyval \<Rightarrow> pyobj" where
  "write_attr cls inst name v =
     (case cls name of
        Some (Property fget fset) \<Rightarrow> (let r = fset inst v in inst)
      | _ \<Rightarrow> inst(name \<mapsto> v))"

text \<open>
  The four host interactions inside the \<^verbatim>\<open>try\<close> block of
  \<^verbatim>\<open>apply_nuclear_patch\<close> (lines 39, 43, 49, 55). \<open>Some e\<close> means the call
  raises an \<^verbatim>\<open>Exception\<close> with message \<open>e\<close>.
\<close>

record patch_host =
  lights_new :: "string option"
  light_cycles :: "string option"
  class_setattr :: "string option"
  lights_remove :: "string option"

datatype patch_msg =
    ApplyingPatch
  | InjectingMock
  | PatchApplied
  | AlreadyExists
  | PatchWarning string

record patch_state =
  cycles_class :: pyclass
  lights :: "string list"
  out :: "patch_msg list"

definition say :: "patch_msg \<Rightarrow> patch_state \<Rightarrow> patch_state" where
  "say m st = st\<lparr>out := out st @ [m]\<rparr>"

text \<open>
  The body of the \<^verbatim>\<open>try\<close> block, lines 38-55. The first component is the
  exception that leaves the block, if any; the state is the one reached when
  it was raised, since what was done before stays done.
\<close>

definition try_block :: "patch_host \<Rightarrow> patch_state \<Rightarrow> string option \<times> patch_state" where
  "try_block h st =
     (case lights_new h of
        Some e \<Rightarrow> (Some e, st)
      | None \<Rightarrow>
          let st1 = st\<lparr>lights := lights st @ [''Patch_Probe'']\<rparr> in
          (case light_cycles h of
             Some e \<Rightarrow> (Some e, st1)
           | None \<Rightarrow>
               let r =
                 (if \<not> hasattr (cycles_class st1) ''cast_shadow'' then
                    (let st2 = say InjectingMock st1 in
                     case class_setattr h of
                       Some e \<Rightarrow> (Some e, st2)
                     | None \<Rightarrow>
                         (None, say PatchApplied
                            (st2\<lparr>cycles_class :=
                                    (cycles_class st2)(''cast_shadow'' \<mapsto> cast_shadow_mock)\<rparr>)))
                  else (None, say AlreadyExists st1))
               in
               (case r of
                  (Some e, st3) \<Rightarrow> (Some e, st3)
                | (None, st3) \<Rightarrow>
                    (case lights_remove h of
                       Some e \<Rightarrow> (Some e, st3)
                     | None \<Rightarrow> (None, st3\<lparr>lights := butlast (lights st3)\<rparr>)))))"

text \<open>
  \<^verbatim>\<open>apply_nuclear_patch\<close>, lines 34-58: the handler catches every
  \<^verbatim>\<open>Exception\<close> and prints it. The first component of the result is the
  exception that leaves the function.
\<close>

definition apply_nuclear_patch :: "patch_host \<Rightarrow> patch_state \<Rightarrow> string option \<times> patch_state" where
  "apply_nuclear_patch h st =
     (case try_block h (say ApplyingPatch st) of
        (None, st') \<Rightarrow> (None, st')
      | (Some e, st') \<Rightarrow> (None, say (PatchWarning e) st'))"

text \<open>The probe reaches the \<^verbatim>\<open>setattr\<close> and the \<^verbatim>\<open>setattr\<close> succeeds.\<close>

definition probe_ok :: "patch_host \<Rightarrow> bool" where
  "probe_ok h = (lights_new h = None \<and> light_cycles h = None \<and> class_setattr h = None)"

section \<open>Paths, glob and fnmatch\<close>

text \<open>
  \<^verbatim>\<open>os.path\<close>, \<^verbatim>\<open>glob\<close> and \<^verbatim>\<open>fnmatch\<close> belong to the Python standard library.
  They are modelled on byte strings for the two families of hosts: on POSIX
  the separator is \<^verbatim>\<open>/\<close> and \<^verbatim>\<open>normcase\<close> is the identity; on Windows the
  separators are \<^verbatim>\<open>\\<close> and \<^verbatim>\<open>/\<close>, \<^verbatim>\<open>normcase\<close> lowers ASCII letters and
  turns \<^verbatim>\<open>/\<close> into \<^verbatim>\<open>\\<close>, and a path may start with a drive
  (\<^verbatim>\<open>C:\<close>) or a UNC share, as in CPython 3.11.
\<close>

datatype platform = Posix | Windows

definition sep :: "platform \<Rightarrow> char" where
  "sep pf = (case pf of Posix \<Rightarrow> CHR ''/'' | Windows \<Rightarrow> CHR 0x5C)"

definition is_sep :: "platform \<Rightarrow> char \<Rightarrow> bool" where
  "is_sep pf c = (c = CHR ''/'' \<or> (pf = Windows \<and> c = CHR 0x5C))"

definition lower_char :: "char \<Rightarrow> char" where
  "lower_char c =
     (case map_of (zip ''ABCDEFGHIJKLMNOPQRSTUVWXYZ'' ''abcdefghijklmnopqrstuvwxyz'') c of
        Some l \<Rightarrow> l
      | None \<Rightarrow> c)"

definition lower :: "string \<Rightarrow> string" where
  "lower s = map lower_char s"

definition normcase :: "platform \<Rightarrow> string \<Rightarrow> string" where
  "normcase pf s =
     (case pf of
        Posix \<Rightarrow> s
      | Windows \<Rightarrow> map (\<lambda>c. if c = CHR ''/'' then CHR 0x5C else lower_char c) s)"

text \<open>
  \<^verbatim>\<open>os.path.splitdrive\<close>: nothing on POSIX; on Windows a UNC share
  \<^verbatim>\<open>\\host\share\<close> or a drive letter with its colon.
\<close>

definition splitdrive :: "platform \<Rightarrow> string \<Rightarrow> string \<times> string" where
  "splitdrive pf p =
     (case pf of
        Posix \<Rightarrow> ([], p)
      | Windows \<Rightarrow>
          if length p < 2 then ([], p)
          else
            (let normp = map (\<lambda>c. if c = CHR ''/'' then CHR 0x5C else c) p in
             if take 2 normp = [CHR 0x5C, CHR 0x5C] \<and> take 1 (drop 2 normp) \<noteq> [CHR 0x5C] then
               (let host = takeWhile (\<lambda>c. c \<noteq> CHR 0x5C) (drop 2 normp);
                    after_host = drop (2 + length host) normp
                in case after_host of
                     [] \<Rightarrow> ([], p)
                   | s1 # rest \<Rightarrow>
                       (let share = takeWhile (\<lambda>c. c \<noteq> CHR 0x5C) rest in
                        if share = [] \<and> rest \<noteq> [] then ([], p)
                        else (take (3 + length host + length share) p,
                              drop (3 + length host + length share) p)))
             else if take 1 (drop 1 normp) = '':'' then (take 2 p, drop 2 p)
             else ([], p)))"

text \<open>\<^verbatim>\<open>os.path.join(a, b)\<close> for two components.\<close>

definition path_join :: "platform \<Rightarrow> string \<Rightarrow> string \<Rightarrow> string" where
  "path_join pf a b =
     (case pf of
        Posix \<Rightarrow>
          (if b \<noteq> [] \<and> hd b = CHR ''/'' then b
           else if a = [] \<or> last a = CHR ''/'' then a @ b
           else a @ ''/'' @ b)
      | Windows \<Rightarrow>
          (let (result_drive, result_path) = splitdrive Windows a;
               (p_drive, p_path) = splitdrive Windows b;
               relative = (if result_path \<noteq> [] \<and> \<not> is_sep Windows (last result_path)
                           then result_path @ [CHR 0x5C] else result_path) @ p_path;
               (result_drive, result_path) =
                 (if p_path \<noteq> [] \<and> is_sep Windows (hd p_path) then
                    (if p_drive \<noteq> [] \<or> result_drive = [] then p_drive else result_drive, p_path)
                  else if p_drive \<noteq> [] \<and> p_drive \<noteq> result_drive then
                    (if lower p_drive \<noteq> lower result_drive then (p_drive, p_path)
                     else (p_drive, relative))
                  else (result_drive, relative))
           in if result_path \<noteq> [] \<and> \<not> is_sep Windows (hd result_path)
                 \<and> result_drive \<noteq> [] \<and> last result_drive \<noteq> CHR '':''
              then result_drive @ [CHR 0x5C] @ result_path
              else result_drive @ result_path))"

text \<open>
  \<^verbatim>\<open>os.path.split\<close>: after the drive, the part up to the last separator,
  without its trailing separators unless it has nothing else, and the part
  after it. \<^verbatim>\<open>basename\<close> and \<^verbatim>\<open>dirname\<close> are its two halves.
\<close>

definition last_component :: "platform \<Rightarrow> string \<Rightarrow> string" where
  "last_component pf p = rev (takeWhile (\<lambda>c. \<not> is_sep pf c) (rev p))"

definition path_split :: "platform \<Rightarrow> string \<Rightarrow> string \<times> string" where
  "path_split pf p =
     (let (d, q) = splitdrive pf p;
          h = rev (dropWhile (\<lambda>c. \<not> is_sep pf c) (rev q));
          stripped = rev (dropWhile (is_sep pf) (rev h))
      in (d @ (if stripped = [] then h else stripped), last_component pf q))"

definition basename :: "platform \<Rightarrow> string \<Rightarrow> string" where
  "basename pf p = snd (path_split pf p)"

definition dirname :: "platform \<Rightarrow> string \<Rightarrow> string" where
  "dirname pf p = fst (path_split pf p)"

text \<open>
  \<^verbatim>\<open>os.path.splitext\<close>: the extension starts at the last dot of the last
  component, unless only dots precede it there.
\<close>

definition splitext :: "platform \<Rightarrow> string \<Rightarrow> string \<times> string" where
  "splitext pf p =
     (let b = last_component pf p;
          d = take (length p - length b) p;
          ext_rev = takeWhile (\<lambda>c. c \<noteq> CHR ''.'') (rev b)
      in case dropWhile (\<lambda>c. c \<noteq> CHR ''.'') (rev b) of
           [] \<Rightarrow> (p, [])
         | dot # stem_rev \<Rightarrow>
             if dropWhile (\<lambda>c. c = CHR ''.'') (rev stem_rev) = [] then (p, [])
             else (d @ rev stem_rev, dot # rev ext_rev))"

text \<open>
  \<^verbatim>\<open>fnmatch.fnmatchcase\<close> for patterns made of literal characters, \<^verbatim>\<open>*\<close> and
  \<^verbatim>\<open>?\<close> (the script's patterns have no bracket expression).
\<close>

fun fnmatchcase :: "string \<Rightarrow> string \<Rightarrow> bool" where
  "fnmatchcase [] [] = True"
| "fnmatchcase (c # cs) [] = False"
| "fnmatchcase [] (p # ps) = (p = CHR ''*'' \<and> fnmatchcase [] ps)"
| "fnmatchcase (c # cs) (p # ps) =
     (if p = CHR ''*'' then fnmatchcase (c # cs) ps \<or> fnmatchcase cs (p # ps)
      else (p = CHR ''?'' \<or> p = c) \<and> fnmatchcase cs ps)"

definition fnmatch_filter :: "platform \<Rightarrow> string list \<Rightarrow> string \<Rightarrow> string list" where
  "fnmatch_filter pf names pat =
     filter (\<lambda>n. fnmatchcase (normcase pf n) (normcase pf pat)) names"

definition ishidden :: "string \<Rightarrow> bool" where
  "ishidden p = (case p of [] \<Rightarrow> False | c # cs \<Rightarrow> c = CHR ''.'')"

text \<open>
  \<^verbatim>\<open>glob._glob1\<close> on the entries \<open>names\<close> of one directory: hidden entries
  are dropped unless the pattern is hidden itself, the rest is filtered by
  \<^verbatim>\<open>fnmatch\<close>.
\<close>

definition glob1 :: "platform \<Rightarrow> string list \<Rightarrow> string \<Rightarrow> string list" where
  "glob1 pf names pat =
     fnmatch_filter pf (if ishidden pat then names else filter (\<lambda>n. \<not> ishidden n) names) pat"

text \<open>\<^verbatim>\<open>glob.has_magic\<close>: one of the characters \<^verbatim>\<open>*\<close>, \<^verbatim>\<open>?\<close>, \<^verbatim>\<open>[\<close> occurs.\<close>

definition has_magic :: "string \<Rightarrow> bool" where
  "has_magic s = (filter (\<lambda>c. c \<in> set ''*?['') s \<noteq> [])"

text \<open>
  \<^verbatim>\<open>glob.glob(pathname)\<close> for a path name whose last component is a pattern.
  The path name is split; a directory part with wildcard characters is
  itself expanded by the library against the file system, which is the
  parameter \<open>expand\<close>; \<open>ls\<close> lists a directory (nothing when it cannot be
  listed). Every match is joined to the directory it was found in.
\<close>

definition glob_glob ::
  "platform \<Rightarrow> (string \<Rightarrow> string list) \<Rightarrow> (string \<Rightarrow> string list) \<Rightarrow> string \<Rightarrow> string list" where
  "glob_glob pf ls expand pathname =
     (let (dirname, basename) = path_split pf pathname;
          dirs = (if dirname \<noteq> pathname \<and> has_magic dirname then expand dirname else [dirname])
      in concat (map (\<lambda>dir. map (path_join pf dir) (glob1 pf (ls dir) basename)) dirs))"

text \<open>Lines 135-140 of \<^verbatim>\<open>main\<close>: both patterns, then \<^verbatim>\<open>sorted(set(...))\<close>.\<close>

definition find_fbx_files ::
  "platform \<Rightarrow> (string \<Rightarrow> string list) \<Rightarrow> (string \<Rightarrow> string list) \<Rightarrow> string \<Rightarrow> string list" where
  "find_fbx_files pf ls expand anims_dir =
     (let fbx_pattern_lower = path_join pf anims_dir ''*.fbx'';
          fbx_pattern_upper = path_join pf anims_dir ''*.FBX'';
          fbx_files = glob_glob pf ls expand fbx_pattern_lower;
          fbx_files = fbx_files @ glob_glob pf ls expand fbx_pattern_upper
      in sort (remdups fbx_files))"

section \<open>Command line\<close>

text \<open>Lines 74-78: only what follows the first \<^verbatim>\<open>--\<close> is parsed.\<close>

definition script_argv :: "string list \<Rightarrow> string list" where
  "script_argv argv =
     (if ''--'' \<in> set argv then tl (dropWhile (\<lambda>a. a \<noteq> ''--'') argv) else [])"

text \<open>
  Lines 80-84 build an \<^verbatim>\<open>argparse.ArgumentParser\<close> with three options, each
  \<^verbatim>\<open>required=True\<close> and taking one value, plus the \<^verbatim>\<open>-h/--help\<close> the library
  adds. \<^verbatim>\<open>argparse\<close> is standard-library code; the model below follows
  CPython 3.11: an option is recognised when spelled in full, as a prefix of
  its long name, or either way followed by \<^verbatim>\<open>=value\<close>.
\<close>

datatype opt = OptMaster | OptAnims | OptOutput | OptHelp

record args =
  arg_master :: string
  arg_anims :: string
  arg_output :: string

datatype token =
    TArg
  | TDashDash
  | TOpt opt "string option"
  | TAmbiguous
  | TUnknown

definition long_name :: "opt \<Rightarrow> string" where
  "long_name o' =
     (case o' of OptMaster \<Rightarrow> ''--master'' | OptAnims \<Rightarrow> ''--anims''
      | OptOutput \<Rightarrow> ''--output'' | OptHelp \<Rightarrow> ''--help'')"

definition startswith :: "string \<Rightarrow> string \<Rightarrow> bool" where
  "startswith s p = (take (length p) s = p)"

definition is_digit :: "char \<Rightarrow> bool" where
  "is_digit c = (c \<in> set ''0123456789'')"

definition is_digits :: "string \<Rightarrow> bool" where
  "is_digits s = (s \<noteq> [] \<and> dropWhile is_digit s = [])"

text \<open>The parser's pattern for negative numbers, \<^verbatim>\<open>^-\d+$|^-\d*\.\d+$\<close>.\<close>

definition negative_number_exact :: "string \<Rightarrow> bool" where
  "negative_number_exact t =
     (case t of
        [] \<Rightarrow> False
      | c # r \<Rightarrow>
          c = CHR ''-'' \<and>
          (is_digits r \<or>
           (case dropWhile is_digit r of
              [] \<Rightarrow> False
            | d # f \<Rightarrow> d = CHR ''.'' \<and> is_digits f)))"

text \<open>In the pattern \<^verbatim>\<open>$\<close> also matches before a newline that ends the string.\<close>

definition negative_number :: "string \<Rightarrow> bool" where
  "negative_number t =
     (negative_number_exact t \<or>
      (t \<noteq> [] \<and> last t = CHR 0x0A \<and> negative_number_exact (butlast t)))"

text \<open>The options whose long name starts with the given prefix.\<close>

definition option_tuples :: "string \<Rightarrow> opt list" where
  "option_tuples p =
     filter (\<lambda>o'. startswith (long_name o') p) [OptMaster, OptAnims, OptOutput, OptHelp]"

text \<open>
  How the parser classifies one argument string: a value, the \<^verbatim>\<open>--\<close>
  marker, one of the options (with the explicit value after \<^verbatim>\<open>=\<close> if there
  is one), an ambiguous abbreviation, or an unknown option.
\<close>

definition classify :: "string \<Rightarrow> token" where
  "classify t =
     (if t = [] then TArg
      else if hd t \<noteq> CHR ''-'' then TArg
      else if t = ''--'' then TDashDash
      else if t = ''-h'' then TOpt OptHelp None
      else if length t = 1 then TArg
      else
        (let name = takeWhile (\<lambda>c. c \<noteq> CHR ''='') t;
             explicit = (case dropWhile (\<lambda>c. c \<noteq> CHR ''='') t of
                           [] \<Rightarrow> None | eq # v \<Rightarrow> Some v)
         in if startswith name ''--'' then
              (case option_tuples name of
                 [o'] \<Rightarrow> TOpt o' explicit
               | o' # o'' # os \<Rightarrow> TAmbiguous
               | [] \<Rightarrow>
                   if negative_number t then TArg
                   else if CHR '' '' \<in> set t then TArg
                   else TUnknown)
            else if startswith t ''-h'' then TOpt OptHelp (Some (drop 2 t))
            else if negative_number t then TArg
            else if CHR '' '' \<in> set t then TArg
            else TUnknown))"

datatype parse_result = Parsed args | ParseExit nat

record partial =
  p_master :: "string option"
  p_anims :: "string option"
  p_output :: "string option"

definition store :: "opt \<Rightarrow> string \<Rightarrow> partial \<Rightarrow> partial" where
  "store o' v acc =
     (case o' of
        OptMaster \<Rightarrow> acc\<lparr>p_master := Some v\<rparr>
      | OptAnims \<Rightarrow> acc\<lparr>p_anims := Some v\<rparr>
      | OptOutput \<Rightarrow> acc\<lparr>p_output := Some v\<rparr>
      | OptHelp \<Rightarrow> acc)"

text \<open>
  The end of parsing: a missing required option is an error, and so is an
  argument nobody consumed; \<^verbatim>\<open>parser.error\<close> exits with status 2.
\<close>

definition finish :: "partial \<Rightarrow> bool \<Rightarrow> parse_result" where
  "finish acc extras =
     (case (p_master acc, p_anims acc, p_output acc) of
        (Some m, Some a, Some out') \<Rightarrow>
          if extras then ParseExit 2
          else Parsed \<lparr>arg_master = m, arg_anims = a, arg_output = out'\<rparr>
      | _ \<Rightarrow> ParseExit 2)"

text \<open>
  The arguments are consumed left to right. \<^verbatim>\<open>--help\<close> prints the usage and
  exits with status 0 where it stands; an option without its value exits with
  status 2 where it stands; unknown options and stray values are reported at
  the end. A \<^verbatim>\<open>--\<close> makes what follows it values, which this parser has no
  use for: it then exits with status 2, also when nothing follows.
\<close>

fun parse_loop :: "string list \<Rightarrow> partial \<Rightarrow> bool \<Rightarrow> parse_result" where
  "parse_loop [] acc extras = finish acc extras"
| "parse_loop (t # ts) acc extras =
     (case classify t of
        TArg \<Rightarrow> parse_loop ts acc True
      | TUnknown \<Rightarrow> parse_loop ts acc True
      | TAmbiguous \<Rightarrow> ParseExit 2
      | TDashDash \<Rightarrow> ParseExit 2
      | TOpt o' e \<Rightarrow>
          (if o' = OptHelp then (if e = None then ParseExit 0 else ParseExit 2)
           else
             (case e of
                Some v \<Rightarrow> parse_loop ts (store o' v acc) extras
              | None \<Rightarrow>
                  (case ts of
                     [] \<Rightarrow> ParseExit 2
                   | v # ts' \<Rightarrow>
                       if classify v = TArg then parse_loop ts' (store o' v acc) extras
                       else ParseExit 2))))"

definition parse_args :: "string list \<Rightarrow> parse_result" where
  "parse_args argv =
     parse_loop argv \<lparr>p_master = None, p_anims = None, p_output = None\<rparr> False"

section \<open>The host's scene\<close>

text \<open>
  The scene graph is owned by the host. The model keeps what the script
  reads and writes: objects with a type, a parent, a selection flag and
  optional animation data; actions as data blocks of their own, referred to
  by identifier, since an action is shared between the object it was imported
  with and the strip it is placed on. Identifiers stand for Python object
  identity. The host's renaming of duplicate names is not modelled.
\<close>

datatype obj_type = ARMATURE | MESH | EMPTY | LIGHT | CAMERA

record action =
  act_name :: string
  frame_range :: "rat \<times> rat"

record strip =
  strip_name :: string
  strip_frame_start :: int
  strip_action :: nat

record track =
  track_name :: string
  track_strips :: "strip list"

record anim_data =
  ad_action :: "nat option"
  nla_tracks :: "track list"

record bobject =
  ob_id :: nat
  ob_name :: string
  ob_type :: obj_type
  ob_parent :: "nat option"
  ob_selected :: bool
  animation_data :: "anim_data option"

record scene =
  objects :: "bobject list"
  actions :: "(nat \<times> action) list"
  next_id :: nat

definition empty_scene :: scene where
  "empty_scene = \<lparr>objects = [], actions = [], next_id = 0\<rparr>"

text \<open>
  The content of a file on disk. Parents are positions in the file's object
  list and actions are positions in the file's action list; a position
  outside the list is no reference.
\<close>

record fobject =
  f_name :: string
  f_type :: obj_type
  f_parent :: "nat option"
  f_animation_data :: "anim_data option"

record blendfile =
  f_objects :: "fobject list"
  f_actions :: "action list"

definition relocate :: "nat \<Rightarrow> nat \<Rightarrow> nat option \<Rightarrow> nat option" where
  "relocate base n r =
     (case r of None \<Rightarrow> None | Some j \<Rightarrow> if j < n then Some (base + j) else None)"

definition relocate_anim :: "nat \<Rightarrow> nat \<Rightarrow> anim_data \<Rightarrow> anim_data" where
  "relocate_anim base n ad =
     \<lparr>ad_action = relocate base n (ad_action ad),
      nla_tracks =
        map (\<lambda>t. t\<lparr>track_strips :=
                      map (\<lambda>s. s\<lparr>strip_action := base + strip_action s\<rparr>)
                        (filter (\<lambda>s. strip_action s < n) (track_strips t))\<rparr>)
          (nla_tracks ad)\<rparr>"

text \<open>
  The host creates the objects and actions of a file in the scene, under
  fresh identifiers; \<open>sel\<close> is the selection flag the new objects get.
\<close>

definition link_file :: "bool \<Rightarrow> blendfile \<Rightarrow> scene \<Rightarrow> scene" where
  "link_file sel f sc =
     (let base = next_id sc;
          n = length (f_objects f);
          k = length (f_actions f)
      in \<lparr>objects = objects sc @
             map (\<lambda>(i, fo).
                    \<lparr>ob_id = base + i, ob_name = f_name fo, ob_type = f_type fo,
                     ob_parent = relocate base n (f_parent fo),
                     ob_selected = sel,
                     animation_data = map_option (relocate_anim (base + n) k) (f_animation_data fo)\<rparr>)
               (enumerate 0 (f_objects f)),
          actions = actions sc @
             map (\<lambda>(i, a). (base + n + i, a)) (enumerate 0 (f_actions f)),
          next_id = base + n + k\<rparr>)"

definition update_object :: "nat \<Rightarrow> (bobject \<Rightarrow> bobject) \<Rightarrow> scene \<Rightarrow> scene" where
  "update_object i f sc =
     sc\<lparr>objects := map (\<lambda>ob. if ob_id ob = i then f ob else ob) (objects sc)\<rparr>"

definition get_object :: "scene \<Rightarrow> nat \<Rightarrow> bobject option" where
  "get_object sc i = find (\<lambda>ob. ob_id ob = i) (objects sc)"

text \<open>\<^verbatim>\<open>bpy.ops.object.select_all(action='DESELECT')\<close>\<close>

definition select_all_deselect :: "scene \<Rightarrow> scene" where
  "select_all_deselect sc =
     sc\<lparr>objects := map (\<lambda>ob. ob\<lparr>ob_selected := False\<rparr>) (objects sc)\<rparr>"

text \<open>\<^verbatim>\<open>obj.select_set(True)\<close>\<close>

definition select_set :: "nat \<Rightarrow> scene \<Rightarrow> scene" where
  "select_set i sc = update_object i (\<lambda>ob. ob\<lparr>ob_selected := True\<rparr>) sc"

text \<open>\<^verbatim>\<open>bpy.context.selected_objects\<close>\<close>

definition selected_objects :: "scene \<Rightarrow> bobject list" where
  "selected_objects sc = filter ob_selected (objects sc)"

text \<open>
  \<^verbatim>\<open>bpy.ops.object.delete()\<close>: the selected objects leave the scene; an
  object whose parent left has no parent any more. Actions stay.
\<close>

definition object_delete :: "scene \<Rightarrow> scene" where
  "object_delete sc =
     (let gone = map ob_id (selected_objects sc)
      in sc\<lparr>objects :=
              map (\<lambda>ob. ob\<lparr>ob_parent :=
                              (case ob_parent ob of
                                 None \<Rightarrow> None
                               | Some q \<Rightarrow> if q \<in> set gone then None else Some q)\<rparr>)
                (filter (\<lambda>ob. \<not> ob_selected ob) (objects sc))\<rparr>)"

text \<open>\<^verbatim>\<open>obj.animation_data_create()\<close>\<close>

definition animation_data_create :: "nat \<Rightarrow> scene \<Rightarrow> scene" where
  "animation_data_create i sc =
     update_object i
       (\<lambda>ob. case animation_data ob of
                None \<Rightarrow> ob\<lparr>animation_data := Some \<lparr>ad_action = None, nla_tracks = []\<rparr>\<rparr>
              | Some ad \<Rightarrow> ob) sc"

definition update_anim :: "nat \<Rightarrow> (anim_data \<Rightarrow> anim_data) \<Rightarrow> scene \<Rightarrow> scene" where
  "update_anim i f sc =
     update_object i (\<lambda>ob. ob\<lparr>animation_data := map_option f (animation_data ob)\<rparr>) sc"

text \<open>
  \<^verbatim>\<open>obj.animation_data.nla_tracks.new()\<close> adds a track at the end; the
  script holds on to it and then sets its name and gives it a strip, which
  the model does on the last track of the object.
\<close>

definition nla_tracks_new :: "nat \<Rightarrow> scene \<Rightarrow> scene" where
  "nla_tracks_new i sc =
     update_anim i
       (\<lambda>ad. ad\<lparr>nla_tracks := nla_tracks ad @ [\<lparr>track_name = ''NlaTrack'', track_strips = []\<rparr>]\<rparr>) sc"

definition update_last :: "('a \<Rightarrow> 'a) \<Rightarrow> 'a list \<Rightarrow> 'a list" where
  "update_last f xs = (case rev xs of [] \<Rightarrow> [] | x # r \<Rightarrow> rev r @ [f x])"

definition track_set_name :: "nat \<Rightarrow> string \<Rightarrow> scene \<Rightarrow> scene" where
  "track_set_name i name sc =
     update_anim i
       (\<lambda>ad. ad\<lparr>nla_tracks := update_last (\<lambda>t. t\<lparr>track_name := name\<rparr>) (nla_tracks ad)\<rparr>) sc"

text \<open>\<^verbatim>\<open>track.strips.new(name, start, action)\<close>\<close>

definition strips_new :: "nat \<Rightarrow> string \<Rightarrow> int \<Rightarrow> nat \<Rightarrow> scene \<Rightarrow> scene" where
  "strips_new i name start a sc =
     update_anim i
       (\<lambda>ad. ad\<lparr>nla_tracks :=
                  update_last
                    (\<lambda>t. t\<lparr>track_strips := track_strips t @
                             [\<lparr>strip_name = name, strip_frame_start = start, strip_action = a\<rparr>]\<rparr>)
                    (nla_tracks ad)\<rparr>) sc"

text \<open>\<^verbatim>\<open>strip.action = action\<close> on the strip just created.\<close>

definition strip_set_action :: "nat \<Rightarrow> nat \<Rightarrow> scene \<Rightarrow> scene" where
  "strip_set_action i a sc =
     update_anim i
       (\<lambda>ad. ad\<lparr>nla_tracks :=
                  update_last
                    (\<lambda>t. t\<lparr>track_strips := update_last (\<lambda>s. s\<lparr>strip_action := a\<rparr>) (track_strips t)\<rparr>)
                    (nla_tracks ad)\<rparr>) sc"

text \<open>\<^verbatim>\<open>action.name = name\<close>\<close>

definition action_set_name :: "nat \<Rightarrow> string \<Rightarrow> scene \<Rightarrow> scene" where
  "action_set_name a name sc =
     sc\<lparr>actions := map (\<lambda>(i, act). if i = a then (i, act\<lparr>act_name := name\<rparr>) else (i, act))
                       (actions sc)\<rparr>"

text \<open>Python's \<^verbatim>\<open>int()\<close> of a finite float truncates towards zero.\<close>

definition py_int :: "rat \<Rightarrow> int" where
  "py_int x = (if 0 \<le> x then \<lfloor>x\<rfloor> else \<lceil>x\<rceil>)"

section \<open>The pipeline\<close>

text \<open>
  What the script is given: the command line, the kind of host system, the
  path functions that depend on the working directory, the file system
  (which paths exist, what a directory lists, what a directory pattern
  expands to), the content of the files, and what the export leaves on disk. An import that
  raises leaves the scene as it was.
\<close>

record gltf_params =
  filepath :: string
  export_format :: string
  export_animations :: bool
  export_nla_strips :: bool
  export_skins :: bool
  export_morph :: bool
  export_lights :: bool
  export_cameras :: bool
  export_apply :: bool
  export_draco_mesh_compression_enable :: bool
  export_draco_mesh_compression_level :: int
  export_draco_position_quantization :: int
  export_draco_normal_quantization :: int
  export_draco_texcoord_quantization :: int

record env =
  sys_argv :: "string list"
  platform :: platform
  abspath :: "string \<Rightarrow> string"
  normpath :: "string \<Rightarrow> string"
  path_exists :: "string \<Rightarrow> bool"
  blend_file :: "string \<Rightarrow> blendfile"
  listdir :: "string \<Rightarrow> string list"
  glob_dirs :: "string \<Rightarrow> string list"
  fbx_file :: "string \<Rightarrow> string + blendfile"
  exists_after_export :: "gltf_params \<Rightarrow> scene \<Rightarrow> string \<Rightarrow> bool"

datatype hostcall =
    ReadHomefile
  | OpenMainfile string
  | ImportFbx string
  | ActionSetName nat string
  | AnimationDataCreate nat
  | NlaTracksNew nat
  | StripsNew nat string int nat
  | SelectAllDeselect
  | SelectSet nat
  | ObjectDelete
  | Makedirs string
  | ExportGltf gltf_params

datatype msg =
    Configuration string string string
  | ClearingScene
  | CriticalMasterNotFound string
  | OpeningMaster string
  | MasterLoaded
  | CriticalNoArmature
  | TargetRig string
  | WarningNoFbx
  | ExportingBaseOnly
  | Processing nat
  | Importing string
  | ErrorImporting string string
  | Merged string int int
  | WarningNoAnimationData string
  | SuccessfullyMerged nat nat
  | FinalActions nat
  | FinalAction string rat rat
  | ExportingGLB string
  | ExportSuccess string
  | ExportFailed
  | PipelineComplete nat

record pstate =
  scene :: scene
  printed :: "msg list"
  calls :: "hostcall list"
  success_count :: nat

definition print :: "msg \<Rightarrow> pstate \<Rightarrow> pstate" where
  "print m st = st\<lparr>printed := printed st @ [m]\<rparr>"

definition call :: "hostcall \<Rightarrow> (scene \<Rightarrow> scene) \<Rightarrow> pstate \<Rightarrow> pstate" where
  "call c f st = st\<lparr>scene := f (scene st), calls := calls st @ [c]\<rparr>"

text \<open>Lines 66-68.\<close>

definition normalize_path :: "env \<Rightarrow> string \<Rightarrow> string" where
  "normalize_path env path = normpath env (abspath env path)"

text \<open>
  \<^verbatim>\<open>bpy.ops.import_scene.fbx\<close>: the importer deselects everything, creates
  the objects of the file and leaves them selected.
\<close>

definition import_scene_fbx :: "env \<Rightarrow> string \<Rightarrow> scene \<Rightarrow> string + scene" where
  "import_scene_fbx env path sc =
     (case fbx_file env path of
        Inl e \<Rightarrow> Inl e
      | Inr f \<Rightarrow> Inr (link_file True f (select_all_deselect sc)))"

text \<open>Lines 169-174: the first selected armature that is not the master.\<close>

definition find_imported_armature :: "nat \<Rightarrow> scene \<Rightarrow> bobject option" where
  "find_imported_armature master_id sc =
     find (\<lambda>obj. ob_type obj = ARMATURE \<and> ob_id obj \<noteq> master_id) (selected_objects sc)"

text \<open>
  Line 176: the imported armature, its animation data and the action of
  that all have to be there; the result is the armature and its action.
\<close>

definition usable_action :: "scene \<Rightarrow> bobject option \<Rightarrow> (bobject \<times> nat \<times> action) option" where
  "usable_action sc imported_armature =
     (case imported_armature of
        None \<Rightarrow> None
      | Some imp \<Rightarrow>
          (case animation_data imp of
             None \<Rightarrow> None
           | Some ad \<Rightarrow>
               (case ad_action ad of
                  None \<Rightarrow> None
                | Some a \<Rightarrow>
                    (case map_of (actions sc) a of
                       None \<Rightarrow> None
                     | Some act \<Rightarrow> Some (imp, a, act)))))"

text \<open>Lines 195-199: deselect, select the armature and its children, delete.\<close>

definition cleanup_imported :: "nat \<Rightarrow> pstate \<Rightarrow> pstate" where
  "cleanup_imported imp st =
     (let st = call SelectAllDeselect select_all_deselect st;
          st = foldl (\<lambda>st obj.
                        if ob_id obj = imp \<or> (ob_parent obj \<noteq> None \<and> ob_parent obj = Some imp)
                        then call (SelectSet (ob_id obj)) (select_set (ob_id obj)) st
                        else st)
                 st (objects (scene st))
      in call ObjectDelete object_delete st)"

text \<open>Lines 177-199, the branch taken when there is an action to merge.\<close>

definition merge_action :: "nat \<Rightarrow> string \<Rightarrow> bobject \<Rightarrow> nat \<Rightarrow> action \<Rightarrow> pstate \<Rightarrow> pstate" where
  "merge_action master_id anim_name imp a act st =
     (let st = call (ActionSetName a anim_name) (action_set_name a anim_name) st;
          st = (case get_object (scene st) master_id of
                  None \<Rightarrow> st
                | Some m \<Rightarrow>
                    if animation_data m = None
                    then call (AnimationDataCreate master_id) (animation_data_create master_id) st
                    else st);
          st = call (NlaTracksNew master_id) (nla_tracks_new master_id) st;
          st = st\<lparr>scene := track_set_name master_id anim_name (scene st)\<rparr>;
          frame_start = py_int (fst (frame_range act));
          st = call (StripsNew master_id anim_name frame_start a)
                 (strips_new master_id anim_name frame_start a) st;
          st = st\<lparr>scene := strip_set_action master_id a (scene st)\<rparr>;
          frame_end = py_int (snd (frame_range act));
          st = print (Merged anim_name frame_start frame_end) st;
          st = st\<lparr>success_count := success_count st + 1\<rparr>
      in cleanup_imported (ob_id imp) st)"

text \<open>Lines 151-201, one turn of the loop over the animation files.\<close>

definition process_file :: "env \<Rightarrow> nat \<Rightarrow> pstate \<Rightarrow> string \<Rightarrow> pstate" where
  "process_file env master_id st fbx_path =
     (let anim_name = fst (splitext (platform env) (basename (platform env) fbx_path));
          st = print (Importing anim_name) st;
          path = normalize_path env fbx_path
      in case import_scene_fbx env path (scene st) of
           Inl e \<Rightarrow>
             print (ErrorImporting anim_name e) (call (ImportFbx path) (\<lambda>sc. sc) st)
         | Inr sc \<Rightarrow>
             (let st = call (ImportFbx path) (\<lambda>old. sc) st;
                  imported_armature = find_imported_armature master_id (scene st)
              in case usable_action (scene st) imported_armature of
                   Some (imp, a, act) \<Rightarrow> merge_action master_id anim_name imp a act st
                 | None \<Rightarrow> print (WarningNoAnimationData anim_name) st))"

text \<open>Lines 220-236: the arguments of the one export call.\<close>

definition export_params :: "string \<Rightarrow> gltf_params" where
  "export_params output_path =
     \<lparr>filepath = output_path,
      export_format = ''GLB'',
      export_animations = True,
      export_nla_strips = True,
      export_skins = True,
      export_morph = True,
      export_lights = False,
      export_cameras = False,
      export_apply = True,
      export_draco_mesh_compression_enable = True,
      export_draco_mesh_compression_level = 10,
      export_draco_position_quantization = 14,
      export_draco_normal_quantization = 10,
      export_draco_texcoord_quantization = 12\<rparr>"

text \<open>Lines 117-122: the first armature among \<^verbatim>\<open>bpy.data.objects\<close>.\<close>

definition find_master_armature :: "scene \<Rightarrow> bobject option" where
  "find_master_armature sc = find (\<lambda>obj. ob_type obj = ARMATURE) (objects sc)"

text \<open>Lines 142-204: the batch, with its two branches.\<close>

definition merge_all :: "env \<Rightarrow> nat \<Rightarrow> string list \<Rightarrow> pstate \<Rightarrow> pstate" where
  "merge_all env master_id fbx_files st =
     (let st = st\<lparr>success_count := 0\<rparr>
      in if fbx_files = [] then print ExportingBaseOnly (print WarningNoFbx st)
         else
           (let st = print (Processing (length fbx_files)) st;
                st = foldl (process_file env master_id) st fbx_files
            in print (SuccessfullyMerged (success_count st) (length fbx_files)) st))"

text \<open>Lines 206-212: the list of all actions.\<close>

definition list_actions :: "pstate \<Rightarrow> pstate" where
  "list_actions st =
     foldl (\<lambda>st (i, act).
              print (FinalAction (act_name act) (fst (frame_range act)) (snd (frame_range act))) st)
       (print (FinalActions (length (actions (scene st)))) st)
       (actions (scene st))"

text \<open>Lines 214-245: the export and the check of its result.\<close>

datatype outcome = Completed | SysExit nat

definition export_result :: "env \<Rightarrow> string \<Rightarrow> pstate \<Rightarrow> outcome \<times> pstate" where
  "export_result env output_path st =
     (let st = print (ExportingGLB output_path) st;
          st = call (Makedirs (dirname (platform env) output_path)) (\<lambda>sc. sc) st;
          st = call (ExportGltf (export_params output_path)) (\<lambda>sc. sc) st
      in if exists_after_export env (export_params output_path) (scene st) output_path
         then (Completed, print (PipelineComplete (success_count st)) (print (ExportSuccess output_path) st))
         else (SysExit 1, print ExportFailed st))"

definition initial :: pstate where
  "initial = \<lparr>scene = empty_scene, printed = [], calls = [], success_count = 0\<rparr>"

text \<open>
  \<^verbatim>\<open>main\<close>, lines 71-251. The result is how the process ends, with the
  state it has reached then: what it printed, which host calls it made, in
  order, and the scene.
\<close>

definition main :: "env \<Rightarrow> outcome \<times> pstate" where
  "main env =
     (case parse_args (script_argv (sys_argv env)) of
        ParseExit c \<Rightarrow> (SysExit c, initial)
      | Parsed a \<Rightarrow>
          (let master_path = normalize_path env (arg_master a);
               anims_dir = normalize_path env (arg_anims a);
               output_path = normalize_path env (arg_output a);
               st = print (Configuration master_path anims_dir output_path) initial;
               st = print ClearingScene st;
               st = call ReadHomefile (\<lambda>sc. empty_scene) st
           in if \<not> path_exists env master_path
              then (SysExit 1, print (CriticalMasterNotFound master_path) st)
              else
                (let st = print (OpeningMaster master_path) st;
                     st = call (OpenMainfile master_path)
                            (\<lambda>sc. link_file False (blend_file env master_path) empty_scene) st;
                     st = print MasterLoaded st
                 in case find_master_armature (scene st) of
                      None \<Rightarrow> (SysExit 1, print CriticalNoArmature st)
                    | Some master_armature \<Rightarrow>
                        (let st = print (TargetRig (ob_name master_armature)) st;
                             fbx_files = find_fbx_files (platform env) (listdir env) (glob_dirs env) anims_dir;
                             st = merge_all env (ob_id master_armature) fbx_files st;
                             st = list_actions st
                         in export_result env output_path st))))"

text \<open>
  The script as a whole: the patch is applied when the module is loaded
  (line 62), then \<^verbatim>\<open>main\<close> runs (line 255).
\<close>

definition script :: "patch_host \<Rightarrow> patch_state \<Rightarrow> env \<Rightarrow> patch_state \<times> outcome \<times> pstate" where
  "script h ps env = (snd (apply_nuclear_patch h ps), main env)"

text \<open>A host on which every step of the probe works, and a class without the attribute.\<close>

definition host_ok :: patch_host where
  "host_ok = \<lparr>lights_new = None, light_cycles = None, class_setattr = None, lights_remove = None\<rparr>"

definition unpatched :: patch_state where
  "unpatched = \<lparr>cycles_class = Map.empty, lights = [], out = []\<rparr>"





text \<open>The directory is the one \<^verbatim>\<open>glob\<close> splits off the two patterns again.\<close>

definition splits_back :: "platform \<Rightarrow> string \<Rightarrow> bool" where
  "splits_back pf d =
     (path_split pf (path_join pf d ''*.fbx'') = (d, ''*.fbx'') \<and>
      path_split pf (path_join pf d ''*.FBX'') = (d, ''*.FBX''))"



text \<open>
  A small run to evaluate the pipeline on: a master file with a mesh and two
  armatures, and a directory with an animated clip, a clip without animation,
  a file the importer rejects, and a file that is no clip.
\<close>

definition master_blend :: blendfile where
  "master_blend =
     \<lparr>f_objects =
        [\<lparr>f_name = ''Cortex'', f_type = MESH, f_parent = Some 1, f_animation_data = None\<rparr>,
         \<lparr>f_name = ''Rig'', f_type = ARMATURE, f_parent = None, f_animation_data = None\<rparr>,
         \<lparr>f_name = ''Spare'', f_type = ARMATURE, f_parent = None, f_animation_data = None\<rparr>],
      f_actions = []\<rparr>"

definition walk_fbx :: blendfile where
  "walk_fbx =
     \<lparr>f_objects =
        [\<lparr>f_name = ''Armature'', f_type = ARMATURE, f_parent = None,
          f_animation_data = Some \<lparr>ad_action = Some 0, nla_tracks = []\<rparr>\<rparr>,
         \<lparr>f_name = ''Body'', f_type = MESH, f_parent = Some 0, f_animation_data = None\<rparr>,
         \<lparr>f_name = ''Hat'', f_type = MESH, f_parent = Some 1, f_animation_data = None\<rparr>],
      f_actions = [\<lparr>act_name = ''Take 001'', frame_range = (1, 30)\<rparr>]\<rparr>"

definition static_fbx :: blendfile where
  "static_fbx =
     \<lparr>f_objects =
        [\<lparr>f_name = ''Armature'', f_type = ARMATURE, f_parent = None, f_animation_data = None\<rparr>,
         \<lparr>f_name = ''Body'', f_type = MESH, f_parent = Some 0, f_animation_data = None\<rparr>],
      f_actions = []\<rparr>"

definition demo_argv :: "string list" where
  "demo_argv =
     [''blender'', ''-b'', ''--python'', ''merge_animations.py'', ''--'',
      ''--master'', ''/m.blend'', ''--anims'', ''/anims'', ''--output'', ''/out/cortex.glb'']"

definition demo_env :: env where
  "demo_env =
     \<lparr>sys_argv = demo_argv,
      platform = Posix,
      abspath = (\<lambda>p. p),
      normpath = (\<lambda>p. p),
      path_exists = (\<lambda>p. p = ''/m.blend''),
      blend_file = (\<lambda>p. master_blend),
      listdir = (\<lambda>d. if d = ''/anims'' then [''walk.fbx'', ''static.FBX'', ''broken.fbx'', ''notes.txt''] else []),
      glob_dirs = (\<lambda>d. []),
      fbx_file = (\<lambda>p. if p = ''/anims/walk.fbx'' then Inr walk_fbx
                       else if p = ''/anims/static.FBX'' then Inr static_fbx
                       else Inl ''not an FBX file''),
      exists_after_export = (\<lambda>params sc p. p = filepath params)\<rparr>"

text \<open>
  An option is supplied when some argument string is recognised as that
  option; \<open>p_get\<close> reads the value stored for an option so far.
\<close>

definition is_opt :: "opt \<Rightarrow> string \<Rightarrow> bool" where
  "is_opt o' t = (case classify t of TOpt q e \<Rightarrow> q = o' | _ \<Rightarrow> False)"

definition supplied :: "opt \<Rightarrow> string list \<Rightarrow> bool" where
  "supplied o' argv = (filter (is_opt o') argv \<noteq> [])"

definition p_get :: "opt \<Rightarrow> partial \<Rightarrow> string option" where
  "p_get o' acc =
     (case o' of OptMaster \<Rightarrow> p_master acc | OptAnims \<Rightarrow> p_anims acc
      | OptOutput \<Rightarrow> p_output acc | OptHelp \<Rightarrow> None)"

definition all_supplied :: "string list \<Rightarrow> bool" where
  "all_supplied argv =
     (supplied OptMaster argv \<and> supplied OptAnims argv \<and> supplied OptOutput argv)"

text \<open>The same run without \<^verbatim>\<open>--output\<close>, and with no \<^verbatim>\<open>--\<close> at all.\<close>

definition no_output_env :: env where
  "no_output_env =
     demo_env\<lparr>sys_argv := [''blender'', ''--'', ''--master'', ''/m.blend'', ''--anims'', ''/anims'']\<rparr>"

definition no_separator_env :: env where
  "no_separator_env =
     demo_env\<lparr>sys_argv := [''blender'', ''--master'', ''/m.blend'', ''--anims'', ''/anims'',
                             ''--output'', ''/out/cortex.glb'']\<rparr>"

text \<open>
  Names for the stages of \<^verbatim>\<open>main\<close>: the three normalised paths, the scene
  right after the master file is opened, the batch of animation files, and
  the states after the reset, after the load and at the start of the batch.
\<close>

definition master_path :: "env \<Rightarrow> args \<Rightarrow> string" where
  "master_path env a = normalize_path env (arg_master a)"

definition anims_dir :: "env \<Rightarrow> args \<Rightarrow> string" where
  "anims_dir env a = normalize_path env (arg_anims a)"

definition output_path :: "env \<Rightarrow> args \<Rightarrow> string" where
  "output_path env a = normalize_path env (arg_output a)"

definition loaded :: "env \<Rightarrow> args \<Rightarrow> scene" where
  "loaded env a = link_file False (blend_file env (master_path env a)) empty_scene"

definition batch :: "env \<Rightarrow> args \<Rightarrow> string list" where
  "batch env a = find_fbx_files (platform env) (listdir env) (glob_dirs env) (anims_dir env a)"

definition at_reset :: "env \<Rightarrow> args \<Rightarrow> pstate" where
  "at_reset env a =
     \<lparr>scene = empty_scene,
      printed = [Configuration (master_path env a) (anims_dir env a) (output_path env a),
                 ClearingScene],
      calls = [ReadHomefile],
      success_count = 0\<rparr>"

definition at_load :: "env \<Rightarrow> args \<Rightarrow> pstate" where
  "at_load env a =
     \<lparr>scene = loaded env a,
      printed = [Configuration (master_path env a) (anims_dir env a) (output_path env a),
                 ClearingScene, OpeningMaster (master_path env a), MasterLoaded],
      calls = [ReadHomefile, OpenMainfile (master_path env a)],
      success_count = 0\<rparr>"

definition at_batch :: "env \<Rightarrow> args \<Rightarrow> bobject \<Rightarrow> pstate" where
  "at_batch env a m = print (TargetRig (ob_name m)) (at_load env a)"

definition export_calls :: "hostcall list \<Rightarrow> hostcall list" where
  "export_calls cs = filter (\<lambda>c. case c of ExportGltf p \<Rightarrow> True | _ \<Rightarrow> False) cs"

definition import_calls :: "hostcall list \<Rightarrow> hostcall list" where
  "import_calls cs = filter (\<lambda>c. case c of ImportFbx p \<Rightarrow> True | _ \<Rightarrow> False) cs"




definition no_clips_env :: env where
  "no_clips_env = demo_env\<lparr>listdir := (\<lambda>d. [''notes.txt''])\<rparr>"

definition demo_args :: args where
  "demo_args = \<lparr>arg_master = ''/m.blend'', arg_anims = ''/anims'', arg_output = ''/out/cortex.glb''\<rparr>"

text \<open>What lines 208-212 print for a scene.\<close>

definition action_lines :: "scene \<Rightarrow> msg list" where
  "action_lines sc =
     FinalActions (length (actions sc)) #
     map (\<lambda>(i, act). FinalAction (act_name act) (fst (frame_range act)) (snd (frame_range act)))
       (actions sc)"

text \<open>The scene right after the import of a file into a scene.\<close>

definition imported_scene :: "blendfile \<Rightarrow> scene \<Rightarrow> scene" where
  "imported_scene f sc = link_file True f (select_all_deselect sc)"

definition anim_name_of :: "env \<Rightarrow> string \<Rightarrow> string" where
  "anim_name_of env fbx_path = fst (splitext (platform env) (basename (platform env) fbx_path))"

text \<open>
  Vocabulary for the scene properties. A scene is well formed when its
  objects have distinct identifiers, all below the next fresh one, and so are
  the parents they name. The objects the cleanup selects are the ones whose
  identifier is that of the imported armature or whose parent it is.
\<close>

definition wf_object :: "nat \<Rightarrow> bobject \<Rightarrow> bool" where
  "wf_object n ob = (ob_id ob < n \<and> (case ob_parent ob of None \<Rightarrow> True | Some q \<Rightarrow> q < n))"

definition wf_scene :: "scene \<Rightarrow> bool" where
  "wf_scene sc = (distinct (map ob_id (objects sc)) \<and> list_all (wf_object (next_id sc)) (objects sc))"

definition doomed :: "nat \<Rightarrow> scene \<Rightarrow> nat list" where
  "doomed imp sc =
     map ob_id (filter (\<lambda>ob. ob_id ob = imp \<or> ob_parent ob = Some imp) (objects sc))"

definition deselect :: "bobject \<Rightarrow> bobject" where
  "deselect ob = ob\<lparr>ob_selected := False\<rparr>"

definition unparent :: "nat list \<Rightarrow> bobject \<Rightarrow> bobject" where
  "unparent gone ob =
     ob\<lparr>ob_parent := (case ob_parent ob of
                         None \<Rightarrow> None
                       | Some q \<Rightarrow> if q \<in> set gone then None else Some q)\<rparr>"

definition tracks_of :: "scene \<Rightarrow> nat \<Rightarrow> track list" where
  "tracks_of sc i =
     (case get_object sc i of
        None \<Rightarrow> []
      | Some ob \<Rightarrow> (case animation_data ob of None \<Rightarrow> [] | Some ad \<Rightarrow> nla_tracks ad))"

definition new_track :: "string \<Rightarrow> int \<Rightarrow> nat \<Rightarrow> track" where
  "new_track name start a =
     \<lparr>track_name = name,
      track_strips = [\<lparr>strip_name = name, strip_frame_start = start, strip_action = a\<rparr>]\<rparr>"

definition with_track :: "track \<Rightarrow> bobject \<Rightarrow> bobject" where
  "with_track t ob =
     ob\<lparr>animation_data :=
          Some (case animation_data ob of
                  None \<Rightarrow> \<lparr>ad_action = None, nla_tracks = [t]\<rparr>
                | Some ad \<Rightarrow> ad\<lparr>nla_tracks := nla_tracks ad @ [t]\<rparr>)\<rparr>"

text \<open>What the script can tell of an object apart from selection and animation.\<close>

definition rig_view :: "scene \<Rightarrow> nat \<Rightarrow> (string \<times> obj_type \<times> nat option) option" where
  "rig_view sc i = map_option (\<lambda>ob. (ob_name ob, ob_type ob, ob_parent ob)) (get_object sc i)"

text \<open>
  The scene after the merge of an action on the master, before the cleanup,
  and the host call that creates the master's animation data when it has none.
\<close>

definition merged_scene :: "nat \<Rightarrow> string \<Rightarrow> nat \<Rightarrow> action \<Rightarrow> scene \<Rightarrow> scene" where
  "merged_scene mid name a act sc =
     update_object mid (with_track (new_track name (py_int (fst (frame_range act))) a))
       (action_set_name a name sc)"

definition create_calls :: "scene \<Rightarrow> nat \<Rightarrow> hostcall list" where
  "create_calls sc mid =
     (case get_object sc mid of
        None \<Rightarrow> []
      | Some m \<Rightarrow> if animation_data m = None then [AnimationDataCreate mid] else [])"

text \<open>The master armature of the small run, as it is after the load.\<close>

definition demo_rig :: bobject where
  "demo_rig =
     \<lparr>ob_id = 1, ob_name = ''Rig'', ob_type = ARMATURE, ob_parent = None,
      ob_selected = False, animation_data = None\<rparr>"



definition walk_armature :: bobject where
  "walk_armature =
     \<lparr>ob_id = 3, ob_name = ''Armature'', ob_type = ARMATURE, ob_parent = None,
      ob_selected = True, animation_data = Some \<lparr>ad_action = Some 6, nla_tracks = []\<rparr>\<rparr>"

definition walk_action :: action where
  "walk_action = \<lparr>act_name = ''Take 001'', frame_range = (1, 30)\<rparr>"

section \<open>Properties\<close>

subsection \<open>The runtime patch\<close>

lemma try_block_class:
  "cycles_class (snd (try_block h st)) =
     (if \<not> hasattr (cycles_class st) ''cast_shadow'' \<and> probe_ok h
      then (cycles_class st)(''cast_shadow'' \<mapsto> cast_shadow_mock) else cycles_class st)"
  by (auto simp: try_block_def probe_ok_def say_def Let_def split: option.splits)

lemma apply_patch_class:
  "cycles_class (snd (apply_nuclear_patch h st)) =
     (if \<not> hasattr (cycles_class st) ''cast_shadow'' \<and> probe_ok h
      then (cycles_class st)(''cast_shadow'' \<mapsto> cast_shadow_mock) else cycles_class st)"
proof -
  have "cycles_class (snd (apply_nuclear_patch h st)) =
        cycles_class (snd (try_block h (say ApplyingPatch st)))"
    by (simp add: apply_nuclear_patch_def say_def split: prod.splits option.splits)
  then show ?thesis
    by (simp add: try_block_class) (simp add: say_def)
qed

text \<open>
  C7. No exception leaves \<^verbatim>\<open>apply_nuclear_patch\<close>: whatever the \<^verbatim>\<open>try\<close> block
  raises is printed as a warning. The class gets the mock property exactly
  when it has no \<^verbatim>\<open>cast_shadow\<close> yet and the probe reaches the \<^verbatim>\<open>setattr\<close>,
  and is unchanged otherwise; reading the mock gives \<^verbatim>\<open>True\<close> on every object
  and writing it leaves the object as it was; applying the patch a second
  time on the same host leaves the class as the first application left it.
\<close>

theorem apply_nuclear_patch_contained_idempotent:
  "fst (apply_nuclear_patch h st) = None
   \<and> out (snd (apply_nuclear_patch h st)) =
       out (snd (try_block h (say ApplyingPatch st))) @
       (case fst (try_block h (say ApplyingPatch st)) of
          None \<Rightarrow> [] | Some e \<Rightarrow> [PatchWarning e])
   \<and> cycles_class (snd (apply_nuclear_patch h st)) =
       (if \<not> hasattr (cycles_class st) ''cast_shadow'' \<and> probe_ok h
        then (cycles_class st)(''cast_shadow'' \<mapsto> cast_shadow_mock)
        else cycles_class st)
   \<and> read_attr ((cycles_class st)(''cast_shadow'' \<mapsto> cast_shadow_mock)) self ''cast_shadow''
       = Some (PyBool True)
   \<and> write_attr ((cycles_class st)(''cast_shadow'' \<mapsto> cast_shadow_mock)) self ''cast_shadow'' v
       = self
   \<and> cycles_class (snd (apply_nuclear_patch h (snd (apply_nuclear_patch h st)))) =
       cycles_class (snd (apply_nuclear_patch h st))"
proof (intro conjI)
  show "fst (apply_nuclear_patch h st) = None"
    by (simp add: apply_nuclear_patch_def split: prod.splits option.splits)
  show "out (snd (apply_nuclear_patch h st)) =
       out (snd (try_block h (say ApplyingPatch st))) @
       (case fst (try_block h (say ApplyingPatch st)) of
          None \<Rightarrow> [] | Some e \<Rightarrow> [PatchWarning e])"
    by (simp add: apply_nuclear_patch_def say_def split: prod.splits option.splits)
  show "cycles_class (snd (apply_nuclear_patch h st)) =
       (if \<not> hasattr (cycles_class st) ''cast_shadow'' \<and> probe_ok h
        then (cycles_class st)(''cast_shadow'' \<mapsto> cast_shadow_mock)
        else cycles_class st)"
    by (rule apply_patch_class)
  show "read_attr ((cycles_class st)(''cast_shadow'' \<mapsto> cast_shadow_mock)) self ''cast_shadow''
       = Some (PyBool True)"
    by (simp add: read_attr_def cast_shadow_mock_def)
  show "write_attr ((cycles_class st)(''cast_shadow'' \<mapsto> cast_shadow_mock)) self ''cast_shadow'' v
       = self"
    by (simp add: write_attr_def cast_shadow_mock_def)
  show "cycles_class (snd (apply_nuclear_patch h (snd (apply_nuclear_patch h st)))) =
       cycles_class (snd (apply_nuclear_patch h st))"
    by (simp add: apply_patch_class hasattr_def)
qed

theorem apply_nuclear_patch_witness:
  "fst (apply_nuclear_patch host_ok unpatched) = None
   \<and> \<not> hasattr (cycles_class unpatched) ''cast_shadow'' \<and> probe_ok host_ok
   \<and> hasattr (cycles_class (snd (apply_nuclear_patch host_ok unpatched))) ''cast_shadow''
   \<and> out (snd (apply_nuclear_patch host_ok unpatched)) = [ApplyingPatch, InjectingMock, PatchApplied]
   \<and> lights (snd (apply_nuclear_patch host_ok unpatched)) = []"
  using apply_nuclear_patch_contained_idempotent [of host_ok unpatched]
  by (simp add: host_ok_def unpatched_def hasattr_def probe_ok_def try_block_def say_def apply_nuclear_patch_def)

subsection \<open>Selection of the animation files\<close>












lemma posix_splits_back:
  assumes "d \<noteq> []" and "last d \<noteq> CHR ''/''"
  shows "splits_back Posix d"
proof -
  have "path_split Posix (path_join Posix d pat) = (d, pat)"
    if "CHR ''/'' \<notin> set pat" "pat \<noteq> []" for pat
  proof -
    from that have j: "path_join Posix d pat = d @ ''/'' @ pat"
      using assms by (cases pat) (auto simp: path_join_def)
    have np: "\<forall>x \<in> set (rev pat). \<not> is_sep Posix x"
      using that by (auto simp: is_sep_def)
    have t: "takeWhile (\<lambda>c. \<not> is_sep Posix c) (rev pat @ CHR ''/'' # rev d) = rev pat"
      using np by (subst takeWhile_append2) (auto simp: is_sep_def)
    have dr: "dropWhile (\<lambda>c. \<not> is_sep Posix c) (rev pat @ CHR ''/'' # rev d) = CHR ''/'' # rev d"
      using np by (subst dropWhile_append2) (auto simp: is_sep_def)
    have "dropWhile (is_sep Posix) (rev d) = rev d"
      using assms by (cases d rule: rev_cases) (auto simp: is_sep_def)
    then have st: "dropWhile (is_sep Posix) (CHR ''/'' # rev d) = rev d"
      by (simp add: is_sep_def)
    have h: "rev (dropWhile (\<lambda>c. \<not> is_sep Posix c) (rev (d @ ''/'' @ pat))) = d @ ''/''"
      using dr by simp
    have s: "rev (dropWhile (is_sep Posix) (rev (d @ ''/''))) = d"
      using st by simp
    have l: "last_component Posix (d @ ''/'' @ pat) = pat"
      using t by (simp add: last_component_def)
    show ?thesis
      unfolding j path_split_def splitdrive_def
      by (simp only: platform.case Let_def prod.case h s l) (simp add: assms(1))
  qed
  from this [of "''*.fbx''"] this [of "''*.FBX''"] show ?thesis
    by (simp add: splits_back_def)
qed




subsection \<open>Command line\<close>

lemma finish_parsed:
  "finish acc extras = Parsed a \<Longrightarrow>
     p_master acc \<noteq> None \<and> p_anims acc \<noteq> None \<and> p_output acc \<noteq> None"
  by (auto simp: finish_def split: option.splits if_splits)

lemma p_get_store:
  "p_get o' (store q v acc) = (if q = o' \<and> o' \<noteq> OptHelp then Some v else p_get o' acc)"
  by (cases o'; cases q) (auto simp: p_get_def store_def)

lemma finish_p_get:
  "finish acc extras = Parsed a \<Longrightarrow> o' \<noteq> OptHelp \<Longrightarrow> p_get o' acc \<noteq> None"
  by (cases o') (auto simp: p_get_def dest: finish_parsed)

lemma supplied_Cons: "supplied o' (t # ts) = (is_opt o' t \<or> supplied o' ts)"
  by (simp add: supplied_def)

lemma parse_loop_supplied:
  "parse_loop ts acc extras = Parsed a \<Longrightarrow> o' \<noteq> OptHelp \<Longrightarrow>
     p_get o' acc \<noteq> None \<or> supplied o' ts"
proof (induction ts acc extras rule: parse_loop.induct)
  case (1 acc extras)
  then show ?case by (auto dest: finish_p_get)
next
  case (2 t ts acc extras)
  show ?case
  proof (cases "classify t")
    case TArg
    with 2 show ?thesis by (auto simp: supplied_Cons)
  next
    case TDashDash
    with 2 show ?thesis by auto
  next
    case (TOpt q e)
    show ?thesis
    proof (cases "q = o'")
      case True
      with TOpt show ?thesis by (simp add: supplied_Cons is_opt_def)
    next
      case False
      note neq = this
      show ?thesis
      proof (cases "q = OptHelp")
        case True
        with 2 TOpt show ?thesis by (auto split: if_splits)
      next
        case notHelp: False
        show ?thesis
        proof (cases e)
          case (Some v)
          with 2 TOpt notHelp
          have "p_get o' (store q v acc) \<noteq> None \<or> supplied o' ts" by auto
          then show ?thesis
            using neq by (auto simp: supplied_Cons p_get_store)
        next
          case None
          show ?thesis
          proof (cases ts)
            case Nil
            with 2 TOpt notHelp None show ?thesis by auto
          next
            case (Cons v ts')
            show ?thesis
            proof (cases "classify v = TArg")
              case True
              with 2 TOpt notHelp None Cons neq
              have "p_get o' (store q v acc) \<noteq> None \<or> supplied o' ts'" by auto
              then show ?thesis
                using neq Cons by (auto simp: supplied_Cons p_get_store)
            next
              case False
              with 2 TOpt notHelp None Cons show ?thesis by auto
            qed
          qed
        qed
      qed
    qed
  next
    case TAmbiguous
    with 2 show ?thesis by auto
  next
    case TUnknown
    with 2 show ?thesis by (auto simp: supplied_Cons)
  qed
qed

lemma parse_args_supplied:
  assumes "parse_args argv = Parsed a"
  shows "all_supplied argv"
proof -
  have "p_get o' \<lparr>p_master = None, p_anims = None, p_output = None\<rparr> = None" for o'
    by (cases o') (simp_all add: p_get_def)
  then show ?thesis
    using assms parse_loop_supplied [of argv "\<lparr>p_master = None, p_anims = None, p_output = None\<rparr>" False a]
    unfolding parse_args_def all_supplied_def by auto
qed

lemma script_argv_no_separator: "''--'' \<notin> set argv \<Longrightarrow> script_argv argv = []"
  by (simp add: script_argv_def)

lemma script_argv_after_separator:
  "''--'' \<notin> set pre \<Longrightarrow> script_argv (pre @ ''--'' # rest) = rest"
  by (simp add: script_argv_def dropWhile_append)

text \<open>
  C6. The arguments parsed are those after the first \<^verbatim>\<open>--\<close>, and none if
  there is no \<^verbatim>\<open>--\<close>. When one of \<^verbatim>\<open>--master\<close>, \<^verbatim>\<open>--anims\<close>, \<^verbatim>\<open>--output\<close> is
  not among them, the process ends in the parser: \<^verbatim>\<open>main\<close> has made no host
  call by then, so the scene was not reset, no file was loaded and nothing
  was exported.
\<close>

theorem required_flags:
  assumes "\<not> all_supplied (script_argv (sys_argv env))"
  shows "\<exists>c. main env = (SysExit c, initial) \<and> calls (snd (main env)) = []"
proof -
  have "parse_args (script_argv (sys_argv env)) \<noteq> Parsed a" for a
    using assms parse_args_supplied by blast
  then obtain c where "parse_args (script_argv (sys_argv env)) = ParseExit c"
    by (cases "parse_args (script_argv (sys_argv env))") auto
  then show ?thesis by (simp add: main_def initial_def)
qed

theorem required_flags_witness:
  "script_argv (sys_argv no_output_env) = [''--master'', ''/m.blend'', ''--anims'', ''/anims'']
   \<and> \<not> all_supplied (script_argv (sys_argv no_output_env))
   \<and> script_argv (sys_argv no_separator_env) = []
   \<and> (\<exists>c. main no_output_env = (SysExit c, initial))
   \<and> (\<exists>c. main no_separator_env = (SysExit c, initial))
   \<and> main no_output_env = (SysExit 2, initial)"
proof -
  have h1: "\<not> all_supplied (script_argv (sys_argv no_output_env))" by code_simp
  have h2: "\<not> all_supplied (script_argv (sys_argv no_separator_env))" by code_simp
  have e1: "script_argv (sys_argv no_output_env) = [''--master'', ''/m.blend'', ''--anims'', ''/anims'']"
    by code_simp
  have e2: "script_argv (sys_argv no_separator_env) = []" by code_simp
  have e3: "main no_output_env = (SysExit 2, initial)" by code_simp
  from required_flags [OF h1] required_flags [OF h2] h1 e1 e2 e3 show ?thesis by blast
qed

subsection \<open>The stages of main\<close>



lemma calls_print [simp]: "calls (print m st) = calls st"
  by (simp add: print_def)

lemma calls_call [simp]: "calls (call c f st) = calls st @ [c]"
  by (simp add: call_def)

lemma scene_print [simp]: "scene (print m st) = scene st"
  by (simp add: print_def)

lemma scene_call [simp]: "scene (call c f st) = f (scene st)"
  by (simp add: call_def)

lemma success_count_print [simp]: "success_count (print m st) = success_count st"
  by (simp add: print_def)

lemma success_count_call [simp]: "success_count (call c f st) = success_count st"
  by (simp add: call_def)

lemma printed_print [simp]: "printed (print m st) = printed st @ [m]"
  by (simp add: print_def)

lemma printed_call [simp]: "printed (call c f st) = printed st"
  by (simp add: call_def)

lemma list_actions_frame:
  "calls (list_actions st) = calls st \<and> scene (list_actions st) = scene st
   \<and> success_count (list_actions st) = success_count st"
proof -
  have "calls (foldl (\<lambda>st (i, act). print (f act) st) s xs) = calls s
        \<and> scene (foldl (\<lambda>st (i, act). print (f act) st) s xs) = scene s
        \<and> success_count (foldl (\<lambda>st (i, act). print (f act) st) s xs) = success_count s"
    for f :: "action \<Rightarrow> msg" and s and xs :: "(nat \<times> action) list"
    by (induction xs arbitrary: s) (auto split: prod.splits)
  then show ?thesis by (simp add: list_actions_def)
qed

lemma main_parsed:
  assumes "parse_args (script_argv (sys_argv env)) = Parsed a"
  shows "main env =
     (if \<not> path_exists env (master_path env a)
      then (SysExit 1, print (CriticalMasterNotFound (master_path env a)) (at_reset env a))
      else case find_master_armature (loaded env a) of
             None \<Rightarrow> (SysExit 1, print CriticalNoArmature (at_load env a))
           | Some m \<Rightarrow>
               export_result env (output_path env a)
                 (list_actions (merge_all env (ob_id m) (batch env a) (at_batch env a m))))"
  using assms
  by (simp add: main_def Let_def master_path_def anims_dir_def output_path_def loaded_def batch_def
      at_reset_def at_batch_def at_load_def print_def call_def initial_def split: option.splits)


lemma export_result_cases:
  "export_result env p st =
     (if exists_after_export env (export_params p) (scene st) p
      then (Completed,
            st\<lparr>printed := printed st @ [ExportingGLB p, ExportSuccess p, PipelineComplete (success_count st)],
               calls := calls st @ [Makedirs (dirname (platform env) p), ExportGltf (export_params p)]\<rparr>)
      else (SysExit 1,
            st\<lparr>printed := printed st @ [ExportingGLB p, ExportFailed],
               calls := calls st @ [Makedirs (dirname (platform env) p), ExportGltf (export_params p)]\<rparr>))"
  by (simp add: export_result_def Let_def print_def call_def)




subsection \<open>The export call\<close>

lemma export_calls_append [simp]: "export_calls (xs @ ys) = export_calls xs @ export_calls ys"
  by (simp add: export_calls_def)

lemma import_calls_append [simp]: "import_calls (xs @ ys) = import_calls xs @ import_calls ys"
  by (simp add: import_calls_def)

lemma select_loop_calls:
  "export_calls (calls (foldl (\<lambda>st obj. if P obj then call (SelectSet (ob_id obj)) (g obj) st else st) st xs))
     = export_calls (calls st)
   \<and> import_calls (calls (foldl (\<lambda>st obj. if P obj then call (SelectSet (ob_id obj)) (g obj) st else st) st xs))
     = import_calls (calls st)"
  by (induction xs arbitrary: st) (auto simp: export_calls_def import_calls_def)

lemma cleanup_imported_calls:
  "export_calls (calls (cleanup_imported imp st)) = export_calls (calls st)"
  unfolding cleanup_imported_def Let_def
  by (simp add: select_loop_calls) (simp add: export_calls_def)

lemma merge_action_calls:
  "export_calls (calls (merge_action m name imp a act st)) = export_calls (calls st)"
  unfolding merge_action_def Let_def
  by (simp add: cleanup_imported_calls split: option.splits) (simp add: export_calls_def)

lemma process_file_calls:
  "export_calls (calls (process_file env m st p)) = export_calls (calls st)"
  unfolding process_file_def Let_def
  by (auto simp: merge_action_calls split: sum.splits option.splits) (simp_all add: export_calls_def)

lemma batch_calls:
  "export_calls (calls (foldl (process_file env m) st ps)) = export_calls (calls st)"
  by (induction ps arbitrary: st) (simp_all add: process_file_calls)

lemma calls_success_update [simp]: "calls (st\<lparr>success_count := n\<rparr>) = calls st"
  by simp

lemma merge_all_calls:
  "export_calls (calls (merge_all env m ps st)) = export_calls (calls st)"
  by (simp add: merge_all_def Let_def batch_calls)

text \<open>
  C4. A run makes one export call when it gets past the master file and
  the armature check, and none otherwise. Its arguments are fixed but for
  the path: binary GLB, animations, NLA strips, skins and morph targets on,
  lights and cameras off, Draco compression on at level 10 with position,
  normal and texture-coordinate quantisation 14, 10 and 12.
\<close>

theorem single_export_call:
  "export_calls (calls (snd (main env))) =
     (case parse_args (script_argv (sys_argv env)) of
        ParseExit c \<Rightarrow> []
      | Parsed a \<Rightarrow>
          if path_exists env (master_path env a) \<and> find_master_armature (loaded env a) \<noteq> None
          then [ExportGltf
                 \<lparr>filepath = output_path env a,
                  export_format = ''GLB'',
                  export_animations = True,
                  export_nla_strips = True,
                  export_skins = True,
                  export_morph = True,
                  export_lights = False,
                  export_cameras = False,
                  export_apply = True,
                  export_draco_mesh_compression_enable = True,
                  export_draco_mesh_compression_level = 10,
                  export_draco_position_quantization = 14,
                  export_draco_normal_quantization = 10,
                  export_draco_texcoord_quantization = 12\<rparr>]
          else [])"
proof (cases "parse_args (script_argv (sys_argv env))")
  case (ParseExit c)
  then show ?thesis by (simp add: main_def initial_def export_calls_def)
next
  case (Parsed a)
  show ?thesis
  proof (cases "path_exists env (master_path env a)")
    case False
    with Parsed main_parsed [OF Parsed] show ?thesis
      by (simp add: at_reset_def export_calls_def)
  next
    case True
    show ?thesis
    proof (cases "find_master_armature (loaded env a)")
      case None
      with True Parsed main_parsed [OF Parsed] show ?thesis
        by (simp add: at_load_def export_calls_def)
    next
      case (Some m)
      have "export_calls (calls (at_batch env a m)) = []"
        by (simp add: at_batch_def at_load_def export_calls_def)
      then have "export_calls (calls (snd (main env))) = [ExportGltf (export_params (output_path env a))]"
        using True Some main_parsed [OF Parsed]
        by (simp add: export_result_cases list_actions_frame merge_all_calls) (simp add: export_calls_def)
      with True Some Parsed show ?thesis by (simp add: export_params_def)
    qed
  qed
qed

theorem single_export_call_witness:
  "export_calls (calls (snd (main demo_env))) =
     [ExportGltf
       \<lparr>filepath = ''/out/cortex.glb'', export_format = ''GLB'', export_animations = True,
        export_nla_strips = True, export_skins = True, export_morph = True,
        export_lights = False, export_cameras = False, export_apply = True,
        export_draco_mesh_compression_enable = True, export_draco_mesh_compression_level = 10,
        export_draco_position_quantization = 14, export_draco_normal_quantization = 10,
        export_draco_texcoord_quantization = 12\<rparr>]"
proof -
  have p: "parse_args (script_argv (sys_argv demo_env)) = Parsed demo_args" by code_simp
  have h: "path_exists demo_env (master_path demo_env demo_args)
            \<and> find_master_armature (loaded demo_env demo_args) \<noteq> None" by code_simp
  have o: "output_path demo_env demo_args = ''/out/cortex.glb''" by code_simp
  from single_export_call [of demo_env] p h o show ?thesis by simp
qed

lemma list_actions_printed: "printed (list_actions st) = printed st @ action_lines (scene st)"
proof -
  have "printed (foldl (\<lambda>st (i, act). print (f act) st) s xs)
          = printed s @ map (\<lambda>(i, act). f act) xs"
    for f :: "action \<Rightarrow> msg" and s and xs :: "(nat \<times> action) list"
    by (induction xs arbitrary: s) (auto split: prod.splits)
  then show ?thesis by (simp add: list_actions_def action_lines_def)
qed

text \<open>
  C10. With no animation file selected, the run prints the warning, imports
  nothing, leaves the success count at 0 and the scene as loaded, and still
  creates the output directory and exports; it completes when the output
  file exists after the export, and exits with status 1 otherwise.
\<close>

theorem empty_batch:
  assumes "parse_args (script_argv (sys_argv env)) = Parsed a"
    and "path_exists env (master_path env a)"
    and "find_master_armature (loaded env a) = Some m"
    and "batch env a = []"
  shows "fst (main env) =
           (if exists_after_export env (export_params (output_path env a)) (loaded env a) (output_path env a)
            then Completed else SysExit 1)
       \<and> calls (snd (main env)) =
           [ReadHomefile, OpenMainfile (master_path env a),
            Makedirs (dirname (platform env) (output_path env a)),
            ExportGltf (export_params (output_path env a))]
       \<and> success_count (snd (main env)) = 0
       \<and> scene (snd (main env)) = loaded env a
       \<and> printed (snd (main env)) =
           printed (at_batch env a m) @ [WarningNoFbx, ExportingBaseOnly] @ action_lines (loaded env a) @
           (if exists_after_export env (export_params (output_path env a)) (loaded env a) (output_path env a)
            then [ExportingGLB (output_path env a), ExportSuccess (output_path env a), PipelineComplete 0]
            else [ExportingGLB (output_path env a), ExportFailed])"
proof -
  have m: "main env = export_result env (output_path env a)
             (list_actions (merge_all env (ob_id m) [] (at_batch env a m)))"
    using main_parsed [OF assms(1)] assms(2-4) by simp
  have s: "scene (merge_all env (ob_id m) [] (at_batch env a m)) = loaded env a"
    by (simp add: merge_all_def at_batch_def at_load_def)
  have c: "calls (merge_all env (ob_id m) [] (at_batch env a m))
            = [ReadHomefile, OpenMainfile (master_path env a)]"
    by (simp add: merge_all_def at_batch_def at_load_def)
  have n: "success_count (merge_all env (ob_id m) [] (at_batch env a m)) = 0"
    by (simp add: merge_all_def)
  have p: "printed (merge_all env (ob_id m) [] (at_batch env a m))
            = printed (at_batch env a m) @ [WarningNoFbx, ExportingBaseOnly]"
    by (simp add: merge_all_def)
  show ?thesis
    by (simp add: m export_result_cases list_actions_frame list_actions_printed s c n p)
qed

theorem empty_batch_witness:
  "batch no_clips_env demo_args = []
   \<and> fst (main no_clips_env) = Completed
   \<and> success_count (snd (main no_clips_env)) = 0
   \<and> calls (snd (main no_clips_env)) =
       [ReadHomefile, OpenMainfile ''/m.blend'', Makedirs ''/out'',
        ExportGltf (export_params ''/out/cortex.glb'')]"
proof -
  have p: "parse_args (script_argv (sys_argv no_clips_env)) = Parsed demo_args" by code_simp
  have h: "path_exists no_clips_env (master_path no_clips_env demo_args)" by code_simp
  obtain m where m: "find_master_armature (loaded no_clips_env demo_args) = Some m"
  proof -
    have "find_master_armature (loaded no_clips_env demo_args) \<noteq> None" by code_simp
    then show ?thesis using that by blast
  qed
  have b: "batch no_clips_env demo_args = []" by code_simp
  have e: "exists_after_export no_clips_env (export_params (output_path no_clips_env demo_args))
             (loaded no_clips_env demo_args) (output_path no_clips_env demo_args)"
    by (simp add: no_clips_env_def demo_env_def export_params_def)
  have o: "output_path no_clips_env demo_args = ''/out/cortex.glb''" by code_simp
  have mp: "master_path no_clips_env demo_args = ''/m.blend''" by code_simp
  have d: "dirname (platform no_clips_env) ''/out/cortex.glb'' = ''/out''" by code_simp
  from empty_batch [OF p h m b] b e o mp d show ?thesis by simp
qed

lemma process_file_skips:
  "(fbx_file env (normalize_path env p) = Inl e \<longrightarrow>
      process_file env m st p =
        st\<lparr>printed := printed st @ [Importing (anim_name_of env p), ErrorImporting (anim_name_of env p) e],
           calls := calls st @ [ImportFbx (normalize_path env p)]\<rparr>)
   \<and> (fbx_file env (normalize_path env p) = Inr f
       \<and> usable_action (imported_scene f (scene st))
            (find_imported_armature m (imported_scene f (scene st))) = None \<longrightarrow>
      process_file env m st p =
        st\<lparr>scene := imported_scene f (scene st),
           printed := printed st @ [Importing (anim_name_of env p), WarningNoAnimationData (anim_name_of env p)],
           calls := calls st @ [ImportFbx (normalize_path env p)]\<rparr>)
   \<and> usable_action sc None = None
   \<and> (animation_data imp = None \<longrightarrow> usable_action sc (Some imp) = None)
   \<and> (animation_data imp = Some ad \<and> ad_action ad = None \<longrightarrow> usable_action sc (Some imp) = None)
   \<and> foldl (process_file env m) st (p # ps) = foldl (process_file env m) (process_file env m st p) ps"
  by (auto simp: process_file_def Let_def import_scene_fbx_def imported_scene_def anim_name_of_def
      print_def call_def usable_action_def split: sum.splits option.splits)



subsection \<open>The scene through the batch\<close>

lemma select_loop:
  fixes P :: "bobject \<Rightarrow> bool"
  defines "step \<equiv> (\<lambda>st obj. if P obj then call (SelectSet (ob_id obj)) (select_set (ob_id obj)) st else st)"
  shows "foldl step st xs =
     st\<lparr>scene := (scene st)\<lparr>objects :=
                     map (\<lambda>ob. if ob_id ob \<in> set (map ob_id (filter P xs))
                                then ob\<lparr>ob_selected := True\<rparr> else ob)
                       (objects (scene st))\<rparr>,
        calls := calls st @ map SelectSet (map ob_id (filter P xs))\<rparr>"
proof (induction xs arbitrary: st)
  case Nil
  then show ?case by (simp add: step_def)
next
  case (Cons x xs)
  show ?case
  proof (cases "P x")
    case True
    then have "foldl step st (x # xs) = foldl step (call (SelectSet (ob_id x)) (select_set (ob_id x)) st) xs"
      by (simp add: step_def)
    also have "\<dots> = st\<lparr>scene := (scene st)\<lparr>objects :=
                     map (\<lambda>ob. if ob_id ob \<in> set (map ob_id (filter P (x # xs)))
                                then ob\<lparr>ob_selected := True\<rparr> else ob)
                       (objects (scene st))\<rparr>,
        calls := calls st @ map SelectSet (map ob_id (filter P (x # xs)))\<rparr>"
      using True by (simp add: Cons.IH call_def select_set_def update_object_def comp_def) 
    finally show ?thesis .
  next
    case False
    then show ?thesis using Cons.IH [of st] by (simp add: step_def)
  qed
qed


lemma unselected_after_marking:
  "filter (\<lambda>ob. \<not> ob_selected ob)
     (map (\<lambda>ob. if ob_id ob \<in> S then ob\<lparr>ob_selected := True\<rparr> else ob) (map deselect xs))
   = filter (\<lambda>ob. ob_id ob \<notin> S) (map deselect xs)"
  by (induction xs) (simp_all add: deselect_def)

lemma selected_after_marking:
  "map ob_id (filter ob_selected
     (map (\<lambda>ob. if ob_id ob \<in> S then ob\<lparr>ob_selected := True\<rparr> else ob) (map deselect xs)))
   = filter (\<lambda>i. i \<in> S) (map ob_id xs)"
  by (induction xs) (simp_all add: deselect_def)

lemma doomed_deselect:
  "map ob_id (filter (\<lambda>ob. ob_id ob = imp \<or> ob_parent ob \<noteq> None \<and> ob_parent ob = Some imp)
                (map deselect xs))
   = map ob_id (filter (\<lambda>ob. ob_id ob = imp \<or> ob_parent ob = Some imp) xs)"
  by (induction xs) (auto simp: deselect_def)

lemma doomed_present:
  "set (filter (\<lambda>i. i \<in> set (doomed imp sc)) (map ob_id (objects sc))) = set (doomed imp sc)"
  by (auto simp: doomed_def)

lemma unparent_cong: "set g = set g' \<Longrightarrow> unparent g = unparent g'"
  by (rule ext) (simp add: unparent_def split: option.splits)

lemma cleanup_imported_eq:
  "cleanup_imported imp st =
     st\<lparr>scene := (scene st)\<lparr>objects :=
                     map (unparent (doomed imp (scene st)))
                       (filter (\<lambda>ob. ob_id ob \<notin> set (doomed imp (scene st)))
                          (map deselect (objects (scene st))))\<rparr>,
        calls := calls st @ [SelectAllDeselect] @ map SelectSet (doomed imp (scene st)) @ [ObjectDelete]\<rparr>"
proof -
  let ?S = "set (doomed imp (scene st))"
  let ?objs = "objects (scene st)"
  let ?marked = "map (\<lambda>ob. if ob_id ob \<in> ?S then ob\<lparr>ob_selected := True\<rparr> else ob) (map deselect ?objs)"
  let ?st1 = "call SelectAllDeselect select_all_deselect st"
  have o1: "objects (scene ?st1) = map deselect ?objs"
    by (simp add: call_def select_all_deselect_def deselect_def)
  have d: "map ob_id (filter (\<lambda>ob. ob_id ob = imp \<or> ob_parent ob \<noteq> None \<and> ob_parent ob = Some imp)
                (map deselect ?objs)) = doomed imp (scene st)"
    by (simp only: doomed_deselect doomed_def)
  let ?st2 = "foldl (\<lambda>st obj.
                        if ob_id obj = imp \<or> (ob_parent obj \<noteq> None \<and> ob_parent obj = Some imp)
                        then call (SelectSet (ob_id obj)) (select_set (ob_id obj)) st
                        else st) ?st1 (objects (scene ?st1))"
  have st2: "?st2 = ?st1\<lparr>scene := (scene ?st1)\<lparr>objects := ?marked\<rparr>,
                         calls := calls ?st1 @ map SelectSet (doomed imp (scene st))\<rparr>"
    using select_loop [of "\<lambda>obj. ob_id obj = imp \<or> (ob_parent obj \<noteq> None \<and> ob_parent obj = Some imp)"
        ?st1 "objects (scene ?st1)"]
    by (simp only: o1 d)
  have sc2: "objects (scene ?st2) = ?marked"
    by (subst st2) simp
  have gone: "set (map ob_id (selected_objects (scene ?st2))) = ?S"
    unfolding selected_objects_def sc2 selected_after_marking by (rule doomed_present)
  have del: "objects (object_delete (scene ?st2))
             = map (unparent (map ob_id (selected_objects (scene ?st2))))
                 (filter (\<lambda>ob. \<not> ob_selected ob) (objects (scene ?st2)))"
    by (simp add: object_delete_def Let_def unparent_def)
  have "objects (object_delete (scene ?st2))
          = map (unparent (doomed imp (scene st))) (filter (\<lambda>ob. ob_id ob \<notin> ?S) (map deselect ?objs))"
    unfolding del unparent_cong [OF gone] sc2 unselected_after_marking ..
  moreover have "cleanup_imported imp st = call ObjectDelete object_delete ?st2"
    by (simp add: cleanup_imported_def Let_def)
  moreover have "actions (object_delete sc) = actions sc \<and> next_id (object_delete sc) = next_id sc" for sc
    by (simp add: object_delete_def Let_def)
  moreover have "calls ?st2 = calls st @ [SelectAllDeselect] @ map SelectSet (doomed imp (scene st))"
    by (subst st2) simp
  moreover have "printed ?st2 = printed st" "success_count ?st2 = success_count st"
    "actions (scene ?st2) = actions (scene st)" "next_id (scene ?st2) = next_id (scene st)"
    by (subst st2, simp add: call_def select_all_deselect_def)+
  ultimately show ?thesis
    by (intro pstate.equality scene.equality) (simp_all add: call_def)
qed

lemma update_object_objects:
  "objects (update_object i f sc) = map (\<lambda>ob. if ob_id ob = i then f ob else ob) (objects sc)"
  by (simp add: update_object_def)

lemma update_object_rest:
  "actions (update_object i f sc) = actions sc" "next_id (update_object i f sc) = next_id sc"
  by (simp_all add: update_object_def)

lemma update_last_snoc: "update_last f (xs @ [x]) = xs @ [f x]"
  by (simp add: update_last_def)

lemma update_last_single: "update_last f [x] = [f x]"
  by (simp add: update_last_def)

lemma attach_objects:
  "objects (strip_set_action mid a (strips_new mid name fs a
              (track_set_name mid name (nla_tracks_new mid sc))))
   = map (\<lambda>ob. if ob_id ob = mid
                then ob\<lparr>animation_data :=
                         map_option (\<lambda>ad. ad\<lparr>nla_tracks := nla_tracks ad @ [new_track name fs a]\<rparr>)
                           (animation_data ob)\<rparr>
                else ob) (objects sc)"
  by (auto simp: strip_set_action_def strips_new_def track_set_name_def nla_tracks_new_def
      update_anim_def update_object_def new_track_def update_last_snoc update_last_single
      option.map_comp comp_def
      intro!: arg_cong [where f = "\<lambda>f. map_option f x" for x])

lemma attach_rest:
  "actions (strip_set_action mid a (strips_new mid name fs a
              (track_set_name mid name (nla_tracks_new mid sc)))) = actions sc"
  "next_id (strip_set_action mid a (strips_new mid name fs a
              (track_set_name mid name (nla_tracks_new mid sc)))) = next_id sc"
  by (simp_all add: strip_set_action_def strips_new_def track_set_name_def nla_tracks_new_def
      update_anim_def update_object_def)

lemma get_object_unique:
  assumes "distinct (map ob_id (objects sc))" "get_object sc i = Some m"
    "ob \<in> set (objects sc)" "ob_id ob = i"
  shows "ob = m"
proof -
  from assms(2) have "m \<in> set (objects sc)" "ob_id m = i"
    by (auto simp: get_object_def find_Some_iff)
  with assms show ?thesis by (auto simp: distinct_map inj_on_def)
qed

lemma get_object_absent:
  "get_object sc i = None \<Longrightarrow> ob \<in> set (objects sc) \<Longrightarrow> ob_id ob \<noteq> i"
  by (auto simp: get_object_def find_None_iff)


lemma attach_after_create:
  "objects (strip_set_action mid a (strips_new mid name fs a
              (track_set_name mid name (nla_tracks_new mid (animation_data_create mid sc)))))
   = map (\<lambda>ob. if ob_id ob = mid then with_track (new_track name fs a) ob else ob) (objects sc)"
  by (auto simp: attach_objects animation_data_create_def update_object_objects with_track_def
      split: option.splits)

lemma attach_has_anim:
  assumes "\<forall>ob \<in> set (objects sc). ob_id ob = mid \<longrightarrow> animation_data ob \<noteq> None"
  shows "objects (strip_set_action mid a (strips_new mid name fs a
              (track_set_name mid name (nla_tracks_new mid sc))))
   = map (\<lambda>ob. if ob_id ob = mid then with_track (new_track name fs a) ob else ob) (objects sc)"
  using assms by (auto simp: attach_objects with_track_def split: option.splits)

lemma action_set_name_frame:
  "objects (action_set_name a name sc) = objects sc"
  "next_id (action_set_name a name sc) = next_id sc"
  "get_object (action_set_name a name sc) i = get_object sc i"
  by (simp_all add: action_set_name_def get_object_def)

lemma animation_data_create_rest:
  "actions (animation_data_create i sc) = actions sc"
  "next_id (animation_data_create i sc) = next_id sc"
  by (simp_all add: animation_data_create_def update_object_def)

lemma merge_action_eq:
  assumes "distinct (map ob_id (objects (scene st)))"
  shows "merge_action mid name imp a act st =
     cleanup_imported (ob_id imp)
       (st\<lparr>scene := merged_scene mid name a act (scene st),
           printed := printed st @
              [Merged name (py_int (fst (frame_range act))) (py_int (snd (frame_range act)))],
           calls := calls st @ [ActionSetName a name] @ create_calls (scene st) mid @
              [NlaTracksNew mid, StripsNew mid name (py_int (fst (frame_range act))) a],
           success_count := success_count st + 1\<rparr>)"
proof -
  let ?fs = "py_int (fst (frame_range act))"
  let ?sc1 = "action_set_name a name (scene st)"
  let ?attach = "\<lambda>sc. strip_set_action mid a (strips_new mid name ?fs a
              (track_set_name mid name (nla_tracks_new mid sc)))"
  let ?target = "map (\<lambda>ob. if ob_id ob = mid then with_track (new_track name ?fs a) ob else ob)
                   (objects (scene st))"
  have tgt: "objects (merged_scene mid name a act (scene st)) = ?target"
    by (simp add: merged_scene_def update_object_objects action_set_name_frame)
  have rest: "actions (merged_scene mid name a act (scene st)) = actions ?sc1"
    "next_id (merged_scene mid name a act (scene st)) = next_id ?sc1"
    by (simp_all add: merged_scene_def update_object_rest)
  show ?thesis
  proof (cases "get_object (scene st) mid")
    case None
    then have "\<forall>ob \<in> set (objects ?sc1). ob_id ob = mid \<longrightarrow> animation_data ob \<noteq> None"
      using get_object_absent by (auto simp: action_set_name_frame)
    from attach_has_anim [OF this] have "objects (?attach ?sc1) = ?target"
      by (simp add: action_set_name_frame)
    then have "?attach ?sc1 = merged_scene mid name a act (scene st)"
      by (intro scene.equality) (simp_all add: tgt rest attach_rest)
    with None show ?thesis
      by (simp add: merge_action_def Let_def action_set_name_frame create_calls_def call_def print_def)
         (rule arg_cong [where f = "cleanup_imported (ob_id imp)"], rule pstate.equality, simp_all)
  next
    case (Some m)
    show ?thesis
    proof (cases "animation_data m = None")
      case True
      have "objects (?attach (animation_data_create mid ?sc1)) = ?target"
        by (simp add: attach_after_create action_set_name_frame)
      then have "?attach (animation_data_create mid ?sc1) = merged_scene mid name a act (scene st)"
        by (intro scene.equality) (simp_all add: tgt rest attach_rest animation_data_create_rest)
      with Some True show ?thesis
        by (simp add: merge_action_def Let_def action_set_name_frame create_calls_def call_def print_def)
           (rule arg_cong [where f = "cleanup_imported (ob_id imp)"], rule pstate.equality, simp_all)
    next
      case False
      then obtain ad where ad: "animation_data m = Some ad" by auto
      have "\<forall>ob \<in> set (objects ?sc1). ob_id ob = mid \<longrightarrow> animation_data ob \<noteq> None"
        using get_object_unique [OF assms Some] False by (auto simp: action_set_name_frame)
      from attach_has_anim [OF this] have "objects (?attach ?sc1) = ?target"
        by (simp add: action_set_name_frame)
      then have "?attach ?sc1 = merged_scene mid name a act (scene st)"
        by (intro scene.equality) (simp_all add: tgt rest attach_rest)
      with Some ad show ?thesis
        by (simp add: merge_action_def Let_def action_set_name_frame create_calls_def call_def print_def)
           (rule arg_cong [where f = "cleanup_imported (ob_id imp)"], rule pstate.equality, simp_all)
    qed
  qed
qed

lemma find_id_map:
  assumes "\<And>ob. ob_id (g ob) = ob_id ob"
  shows "find (\<lambda>ob. ob_id ob = i) (map g xs) = map_option g (find (\<lambda>ob. ob_id ob = i) xs)"
  by (induction xs) (simp_all add: assms)

lemma find_id_filter:
  "i \<notin> D \<Longrightarrow> find (\<lambda>ob. ob_id ob = i) (filter (\<lambda>ob. ob_id ob \<notin> D) xs) = find (\<lambda>ob. ob_id ob = i) xs"
  by (induction xs) auto

lemma find_append_left:
  "\<forall>y \<in> set ys. \<not> P y \<Longrightarrow> find P (xs @ ys) = find P xs"
  by (induction xs) (auto simp: find_None_iff)

lemma ids_preserved [simp]:
  "ob_id (deselect ob) = ob_id ob" "ob_id (unparent D ob) = ob_id ob" "ob_id (with_track t ob) = ob_id ob"
  "ob_parent (deselect ob) = ob_parent ob" "ob_parent (with_track t ob) = ob_parent ob"
  "ob_name (deselect ob) = ob_name ob" "ob_name (unparent D ob) = ob_name ob"
  "ob_name (with_track t ob) = ob_name ob"
  "ob_type (deselect ob) = ob_type ob" "ob_type (unparent D ob) = ob_type ob"
  "ob_type (with_track t ob) = ob_type ob"
  "animation_data (deselect ob) = animation_data ob"
  "animation_data (unparent D ob) = animation_data ob"
  "ob_selected (deselect ob) = False" "ob_selected (with_track t ob) = ob_selected ob"
  by (simp_all add: deselect_def unparent_def with_track_def)

lemma imported_scene_objects:
  "\<exists>news. objects (imported_scene f sc) = map deselect (objects sc) @ news
     \<and> (\<forall>ob \<in> set news. next_id sc \<le> ob_id ob \<and> ob_selected ob
                         \<and> wf_object (next_id sc + length (f_objects f)) ob)
     \<and> distinct (map ob_id news)"
proof -
  let ?base = "next_id sc"
  let ?n = "length (f_objects f)"
  let ?mk = "\<lambda>(i, fo).
                    \<lparr>ob_id = ?base + i, ob_name = f_name fo, ob_type = f_type fo,
                     ob_parent = relocate ?base ?n (f_parent fo),
                     ob_selected = True,
                     animation_data = map_option (relocate_anim (?base + ?n) (length (f_actions f)))
                        (f_animation_data fo)\<rparr>"
  let ?news = "map ?mk (enumerate 0 (f_objects f))"
  have o: "objects (imported_scene f sc) = map deselect (objects sc) @ ?news"
    by (simp add: imported_scene_def link_file_def Let_def select_all_deselect_def deselect_def)
  have ids: "map ob_id ?news = map (\<lambda>i. ?base + i) [0..<?n]"
  proof -
    have g: "map (\<lambda>x. ?base + fst x) ys = map (\<lambda>i. ?base + i) (map fst ys)" for ys :: "(nat \<times> fobject) list"
      by (simp add: comp_def)
    have "map ob_id ?news = map (\<lambda>x. ?base + fst x) (enumerate 0 (f_objects f))"
      by (simp add: comp_def case_prod_beta)
    also have "\<dots> = map (\<lambda>i. ?base + i) (map fst (enumerate 0 (f_objects f)))"
      by (rule g)
    also have "\<dots> = map (\<lambda>i. ?base + i) [0..<?n]"
      by (simp only: map_fst_enumerate add_0)
    finally show ?thesis .
  qed
  have d: "distinct (map ob_id ?news)"
    unfolding ids by (simp add: distinct_map inj_on_def)
  have p: "\<forall>ob \<in> set ?news. ?base \<le> ob_id ob \<and> ob_selected ob \<and> wf_object (?base + ?n) ob"
  proof
    fix ob assume "ob \<in> set ?news"
    then obtain i fo where m: "(i, fo) \<in> set (enumerate 0 (f_objects f))" and ob: "ob = ?mk (i, fo)"
      by auto
    from m have "i < ?n" by (auto simp: in_set_enumerate_eq)
    then show "?base \<le> ob_id ob \<and> ob_selected ob \<and> wf_object (?base + ?n) ob"
      by (auto simp: ob wf_object_def relocate_def split: option.splits)
  qed
  from o d p show ?thesis by blast
qed

lemma imported_scene_next_id:
  "next_id (imported_scene f sc) = next_id sc + length (f_objects f) + length (f_actions f)"
  by (simp add: imported_scene_def link_file_def Let_def select_all_deselect_def)

lemma wf_object_mono: "wf_object n ob \<Longrightarrow> n \<le> n' \<Longrightarrow> wf_object n' ob"
  by (auto simp: wf_object_def split: option.splits)

lemma wf_object_deselect [simp]: "wf_object n (deselect ob) = wf_object n ob"
  by (simp add: wf_object_def)

lemma wf_imported_scene:
  assumes "wf_scene sc"
  shows "wf_scene (imported_scene f sc)"
proof -
  obtain news where o: "objects (imported_scene f sc) = map deselect (objects sc) @ news"
    and p: "\<forall>ob \<in> set news. next_id sc \<le> ob_id ob \<and> ob_selected ob
                         \<and> wf_object (next_id sc + length (f_objects f)) ob"
    and d: "distinct (map ob_id news)"
    using imported_scene_objects by blast
  from assms have old: "\<forall>ob \<in> set (objects sc). wf_object (next_id sc) ob"
    and dold: "distinct (map ob_id (objects sc))"
    by (auto simp: wf_scene_def list_all_iff)
  have "ob_id a \<noteq> ob_id b" if "a \<in> set (objects sc)" "b \<in> set news" for a b
  proof -
    from old that have "ob_id a < next_id sc" by (simp add: wf_object_def)
    moreover from p that have "next_id sc \<le> ob_id b" by simp
    ultimately show ?thesis by simp
  qed
  then have "set (map ob_id (objects sc)) \<inter> set (map ob_id news) = {}" by auto
  then have "distinct (map ob_id (objects (imported_scene f sc)))"
    using d dold by (simp add: o comp_def)
  moreover have "\<forall>ob \<in> set (objects (imported_scene f sc)). wf_object (next_id (imported_scene f sc)) ob"
  proof
    fix ob assume "ob \<in> set (objects (imported_scene f sc))"
    then consider a where "a \<in> set (objects sc)" "ob = deselect a" | "ob \<in> set news"
      by (auto simp: o)
    then show "wf_object (next_id (imported_scene f sc)) ob"
    proof cases
      case 1
      with old have "wf_object (next_id sc) ob" by simp
      then show ?thesis by (rule wf_object_mono) (simp add: imported_scene_next_id)
    next
      case 2
      with p have "wf_object (next_id sc + length (f_objects f)) ob" by simp
      then show ?thesis by (rule wf_object_mono) (simp add: imported_scene_next_id)
    qed
  qed
  ultimately show ?thesis by (simp add: wf_scene_def list_all_iff)
qed

lemma find_SomeD: "find P xs = Some x \<Longrightarrow> x \<in> set xs \<and> P x"
  by (induction xs) (auto split: if_splits)

lemma find_imported_armature_Some:
  assumes "find_imported_armature mid sc = Some imp"
  shows "imp \<in> set (objects sc)" "ob_selected imp" "ob_id imp \<noteq> mid" "ob_type imp = ARMATURE"
  using find_SomeD [OF assms [unfolded find_imported_armature_def]]
  by (simp_all add: selected_objects_def)

lemma usable_action_Some:
  assumes "usable_action sc x = Some (imp, a, act)"
  shows "x = Some imp" "map_of (actions sc) a = Some act"
    "\<exists>ad. animation_data imp = Some ad \<and> ad_action ad = Some a"
  using assms by (auto simp: usable_action_def split: option.splits)

lemma imported_armature_fresh:
  assumes "find_imported_armature mid (imported_scene f sc) = Some imp"
  shows "next_id sc \<le> ob_id imp"
proof -
  obtain news where o: "objects (imported_scene f sc) = map deselect (objects sc) @ news"
    and p: "\<forall>ob \<in> set news. next_id sc \<le> ob_id ob \<and> ob_selected ob
                         \<and> wf_object (next_id sc + length (f_objects f)) ob"
    using imported_scene_objects by blast
  from find_imported_armature_Some [OF assms] have "imp \<in> set (objects (imported_scene f sc))"
    and "ob_selected imp" by simp_all
  then have "imp \<in> set news" by (auto simp: o)
  with p show ?thesis by simp
qed

lemma doomed_fresh:
  assumes "wf_scene sc" "next_id sc \<le> imp" "d \<in> set (doomed imp (imported_scene f sc))"
  shows "next_id sc \<le> d"
proof -
  obtain news where o: "objects (imported_scene f sc) = map deselect (objects sc) @ news"
    and p: "\<forall>ob \<in> set news. next_id sc \<le> ob_id ob \<and> ob_selected ob
                         \<and> wf_object (next_id sc + length (f_objects f)) ob"
    using imported_scene_objects by blast
  from assms(1) have old: "\<forall>ob \<in> set (objects sc). wf_object (next_id sc) ob"
    by (simp add: wf_scene_def list_all_iff)
  from assms(3) obtain x where x: "x \<in> set (objects (imported_scene f sc))" "ob_id x = d"
    and c: "ob_id x = imp \<or> ob_parent x = Some imp"
    by (auto simp: doomed_def)
  from x(1) consider b where "b \<in> set (objects sc)" "x = deselect b" | "x \<in> set news"
    by (auto simp: o)
  then show ?thesis
  proof cases
    case 1
    with old have "wf_object (next_id sc) x" by simp
    with c assms(2) have False by (auto simp: wf_object_def)
    then show ?thesis ..
  next
    case 2
    with p x(2) show ?thesis by auto
  qed
qed

lemma doomed_merged:
  "doomed imp (merged_scene mid name a act sc) = doomed imp sc"
proof -
  have "map ob_id (filter (\<lambda>ob. ob_id ob = imp \<or> ob_parent ob = Some imp) (map g xs))
        = map ob_id (filter (\<lambda>ob. ob_id ob = imp \<or> ob_parent ob = Some imp) xs)"
    if "\<And>ob. ob_id (g ob) = ob_id ob \<and> ob_parent (g ob) = ob_parent ob"
    for g and xs :: "bobject list"
    by (induction xs) (simp_all add: that)
  from this [of "\<lambda>ob. if ob_id ob = mid then with_track (new_track name (py_int (fst (frame_range act))) a) ob else ob"]
  show ?thesis
    by (simp add: doomed_def merged_scene_def update_object_objects action_set_name_frame)
qed

lemma process_file_merge:
  assumes f: "fbx_file env (normalize_path env p) = Inr f"
    and u: "usable_action (imported_scene f (scene st))
              (find_imported_armature mid (imported_scene f (scene st))) = Some (imp, a, act)"
    and wf: "wf_scene (scene st)"
  shows "process_file env mid st p =
     cleanup_imported (ob_id imp)
       (st\<lparr>scene := merged_scene mid (anim_name_of env p) a act (imported_scene f (scene st)),
           printed := printed st @
              [Importing (anim_name_of env p),
               Merged (anim_name_of env p) (py_int (fst (frame_range act))) (py_int (snd (frame_range act)))],
           calls := calls st @ [ImportFbx (normalize_path env p), ActionSetName a (anim_name_of env p)] @
              create_calls (imported_scene f (scene st)) mid @
              [NlaTracksNew mid,
               StripsNew mid (anim_name_of env p) (py_int (fst (frame_range act))) a],
           success_count := success_count st + 1\<rparr>)"
proof -
  let ?sc1 = "imported_scene f (scene st)"
  let ?st1 = "call (ImportFbx (normalize_path env p)) (\<lambda>old. ?sc1) (print (Importing (anim_name_of env p)) st)"
  have d: "distinct (map ob_id (objects (scene ?st1)))"
    using wf_imported_scene [OF wf, of f] by (simp add: wf_scene_def call_def)
  have "process_file env mid st p = merge_action mid (anim_name_of env p) imp a act ?st1"
    using f u
    by (simp add: process_file_def Let_def import_scene_fbx_def imported_scene_def anim_name_of_def
        call_def print_def)
  also have "\<dots> = cleanup_imported (ob_id imp)
       (?st1\<lparr>scene := merged_scene mid (anim_name_of env p) a act (scene ?st1),
           printed := printed ?st1 @
              [Merged (anim_name_of env p) (py_int (fst (frame_range act))) (py_int (snd (frame_range act)))],
           calls := calls ?st1 @ [ActionSetName a (anim_name_of env p)] @
              create_calls (scene ?st1) mid @
              [NlaTracksNew mid,
               StripsNew mid (anim_name_of env p) (py_int (fst (frame_range act))) a],
           success_count := success_count ?st1 + 1\<rparr>)"
    by (rule merge_action_eq [OF d])
  finally show ?thesis
    by (simp add: call_def print_def)
qed

lemma process_file_import_error:
  "fbx_file env (normalize_path env p) = Inl e \<Longrightarrow> scene (process_file env mid st p) = scene st"
  by (simp add: process_file_def Let_def import_scene_fbx_def print_def call_def)

lemma process_file_no_action:
  "fbx_file env (normalize_path env p) = Inr f \<Longrightarrow>
   usable_action (imported_scene f (scene st))
     (find_imported_armature mid (imported_scene f (scene st))) = None \<Longrightarrow>
   scene (process_file env mid st p) = imported_scene f (scene st)"
  by (simp add: process_file_def Let_def import_scene_fbx_def imported_scene_def print_def call_def)

lemma imported_old_object:
  assumes "i < next_id sc"
  shows "get_object (imported_scene f sc) i = map_option deselect (get_object sc i)"
proof -
  obtain news where o: "objects (imported_scene f sc) = map deselect (objects sc) @ news"
    and p: "\<forall>ob \<in> set news. next_id sc \<le> ob_id ob \<and> ob_selected ob
                         \<and> wf_object (next_id sc + length (f_objects f)) ob"
    using imported_scene_objects by blast
  from p assms have "\<forall>y \<in> set news. \<not> ob_id y = i" by auto
  then have "get_object (imported_scene f sc) i = find (\<lambda>ob. ob_id ob = i) (map deselect (objects sc))"
    unfolding get_object_def o by (rule find_append_left)
  then show ?thesis by (simp add: get_object_def find_id_map)
qed

lemma get_object_wf:
  assumes "wf_scene sc" "get_object sc i = Some ob"
  shows "wf_object (next_id sc) ob" "ob_id ob = i"
  using assms find_SomeD [of "\<lambda>ob. ob_id ob = i" "objects sc" ob]
  by (auto simp: wf_scene_def list_all_iff get_object_def)

lemma unparent_id:
  assumes "\<And>q. ob_parent ob = Some q \<Longrightarrow> q \<notin> set D"
  shows "unparent D ob = ob"
  using assms by (cases "ob_parent ob") (simp_all add: unparent_def)

lemma merged_scene_frame:
  "objects (merged_scene mid name a act sc)
     = map (\<lambda>ob. if ob_id ob = mid
                  then with_track (new_track name (py_int (fst (frame_range act))) a) ob
                  else ob) (objects sc)"
  "next_id (merged_scene mid name a act sc) = next_id sc"
  "actions (merged_scene mid name a act sc) = actions (action_set_name a name sc)"
  by (simp_all add: merged_scene_def update_object_objects update_object_rest action_set_name_frame)

lemma merge_final_objects:
  assumes f: "fbx_file env (normalize_path env p) = Inr f"
    and u: "usable_action (imported_scene f (scene st))
              (find_imported_armature mid (imported_scene f (scene st))) = Some (imp, a, act)"
    and wf: "wf_scene (scene st)"
  shows "objects (scene (process_file env mid st p)) =
           map (unparent (doomed (ob_id imp) (imported_scene f (scene st))))
             (filter (\<lambda>ob. ob_id ob \<notin> set (doomed (ob_id imp) (imported_scene f (scene st))))
                (map deselect
                   (map (\<lambda>ob. if ob_id ob = mid
                               then with_track (new_track (anim_name_of env p)
                                       (py_int (fst (frame_range act))) a) ob
                               else ob)
                      (objects (imported_scene f (scene st))))))"
    and "next_id (scene (process_file env mid st p)) = next_id (imported_scene f (scene st))"
    and "actions (scene (process_file env mid st p))
           = actions (action_set_name a (anim_name_of env p) (imported_scene f (scene st)))"
  unfolding process_file_merge [OF f u wf] cleanup_imported_eq
  by (simp_all add: doomed_merged merged_scene_frame)

lemma merge_old_object:
  assumes f: "fbx_file env (normalize_path env p) = Inr f"
    and u: "usable_action (imported_scene f (scene st))
              (find_imported_armature mid (imported_scene f (scene st))) = Some (imp, a, act)"
    and wf: "wf_scene (scene st)"
    and i: "i < next_id (scene st)"
  shows "get_object (scene (process_file env mid st p)) i =
           map_option (\<lambda>ob. deselect (if ob_id ob = mid
                               then with_track (new_track (anim_name_of env p)
                                       (py_int (fst (frame_range act))) a) ob
                               else ob))
             (get_object (scene st) i)"
proof -
  let ?sc1 = "imported_scene f (scene st)"
  let ?D = "doomed (ob_id imp) ?sc1"
  let ?W = "\<lambda>ob. if ob_id ob = mid
                   then with_track (new_track (anim_name_of env p) (py_int (fst (frame_range act))) a) ob
                   else ob"
  from usable_action_Some(1) [OF u] have fi: "find_imported_armature mid ?sc1 = Some imp" .
  then have fresh: "next_id (scene st) \<le> ob_id imp" by (rule imported_armature_fresh)
  have nd: "d \<in> set ?D \<Longrightarrow> next_id (scene st) \<le> d" for d
    using doomed_fresh [OF wf fresh] by blast
  with i have iD: "i \<notin> set ?D" by force
  have W: "ob_id (?W ob) = ob_id ob" for ob by simp
  have "get_object (scene (process_file env mid st p)) i
        = map_option (unparent ?D) (map_option deselect (map_option ?W (get_object ?sc1 i)))"
    unfolding get_object_def merge_final_objects(1) [OF f u wf]
    by (simp only: find_id_map [of "unparent ?D", OF ids_preserved(2)] find_id_filter [OF iD]
        find_id_map [of deselect, OF ids_preserved(1)] find_id_map [of ?W, OF W])
  also have "\<dots> = map_option (unparent ?D) (map_option (\<lambda>ob. deselect (?W ob)) (get_object (scene st) i))"
  proof -
    have "deselect (?W (deselect x)) = deselect (?W x)" for x
      by (cases "ob_id x = mid") (simp_all add: deselect_def with_track_def)
    then show ?thesis
      unfolding imported_old_object [OF i] by (cases "get_object (scene st) i") simp_all
  qed
  also have "\<dots> = map_option (\<lambda>ob. deselect (?W ob)) (get_object (scene st) i)"
  proof (cases "get_object (scene st) i")
    case None
    then show ?thesis by simp
  next
    case (Some ob)
    from get_object_wf [OF wf Some] have w: "wf_object (next_id (scene st)) ob" by simp
    have "unparent ?D (deselect (?W ob)) = deselect (?W ob)"
    proof (rule unparent_id)
      fix q assume "ob_parent (deselect (?W ob)) = Some q"
      then have "ob_parent ob = Some q" by (simp split: if_splits)
      with w have "q < next_id (scene st)" by (simp add: wf_object_def)
      with nd show "q \<notin> set ?D" by force
    qed
    with Some show ?thesis by simp
  qed
  finally show ?thesis .
qed

lemma wf_object_unparent: "wf_object n ob \<Longrightarrow> wf_object n (unparent D ob)"
  by (cases "ob_parent ob") (auto simp: wf_object_def unparent_def)

lemma wf_object_with_track [simp]: "wf_object n (with_track t ob) = wf_object n ob"
  by (simp add: wf_object_def)

lemma ids_after_cleanup:
  "map ob_id (map (unparent D) (filter (\<lambda>ob. ob_id ob \<notin> S) (map deselect (map W xs))))
   = filter (\<lambda>i. i \<notin> S) (map ob_id xs)"
  if "\<And>ob. ob_id (W ob) = ob_id ob"
  by (induction xs) (simp_all add: that)

lemma wf_merge_final:
  assumes f: "fbx_file env (normalize_path env p) = Inr f"
    and u: "usable_action (imported_scene f (scene st))
              (find_imported_armature mid (imported_scene f (scene st))) = Some (imp, a, act)"
    and wf: "wf_scene (scene st)"
  shows "wf_scene (scene (process_file env mid st p))"
proof -
  let ?sc1 = "imported_scene f (scene st)"
  let ?W = "\<lambda>ob. if ob_id ob = mid
                   then with_track (new_track (anim_name_of env p) (py_int (fst (frame_range act))) a) ob
                   else ob"
  have W: "ob_id (?W ob) = ob_id ob" for ob by simp
  from wf_imported_scene [OF wf, of f]
  have d1: "distinct (map ob_id (objects ?sc1))"
    and w1: "\<forall>ob \<in> set (objects ?sc1). wf_object (next_id ?sc1) ob"
    by (simp_all add: wf_scene_def list_all_iff)
  have "distinct (map ob_id (objects (scene (process_file env mid st p))))"
    unfolding merge_final_objects(1) [OF f u wf] ids_after_cleanup [of ?W, OF W]
    using d1 by (rule distinct_filter)
  moreover have "\<forall>ob \<in> set (objects (scene (process_file env mid st p))).
                   wf_object (next_id (scene (process_file env mid st p))) ob"
    unfolding merge_final_objects(1,2) [OF f u wf]
    using w1 by (auto intro!: wf_object_unparent)
  ultimately show ?thesis by (simp add: wf_scene_def list_all_iff)
qed

lemma process_file_cases:
  obtains (error) e where "fbx_file env (normalize_path env p) = Inl e"
  | (no_action) f where "fbx_file env (normalize_path env p) = Inr f"
      "usable_action (imported_scene f (scene st))
         (find_imported_armature mid (imported_scene f (scene st))) = None"
  | (merge) f imp a act where "fbx_file env (normalize_path env p) = Inr f"
      "usable_action (imported_scene f (scene st))
         (find_imported_armature mid (imported_scene f (scene st))) = Some (imp, a, act)"
proof (cases "fbx_file env (normalize_path env p)")
  case (Inl e)
  then show ?thesis by (rule error)
next
  case (Inr f)
  show ?thesis
  proof (cases "usable_action (imported_scene f (scene st))
         (find_imported_armature mid (imported_scene f (scene st)))")
    case None
    with Inr show ?thesis by (rule no_action)
  next
    case (Some t)
    obtain imp a act where "t = (imp, a, act)" by (cases t) auto
    with Inr Some show ?thesis using merge by blast
  qed
qed

lemma process_file_wf:
  assumes wf: "wf_scene (scene st)"
  shows "wf_scene (scene (process_file env mid st p))"
    and "next_id (scene st) \<le> next_id (scene (process_file env mid st p))"
proof -
  show "wf_scene (scene (process_file env mid st p))"
  proof (cases rule: process_file_cases [where env = env and p = p and st = st and mid = mid])
    case (error e)
    then show ?thesis using wf by (simp add: process_file_import_error)
  next
    case (no_action f)
    then show ?thesis using wf_imported_scene [OF wf] by (simp add: process_file_no_action)
  next
    case (merge f imp a act)
    then show ?thesis using wf by (rule wf_merge_final)
  qed
  show "next_id (scene st) \<le> next_id (scene (process_file env mid st p))"
  proof (cases rule: process_file_cases [where env = env and p = p and st = st and mid = mid])
    case (error e)
    then show ?thesis by (simp add: process_file_import_error)
  next
    case (no_action f)
    then show ?thesis by (simp add: process_file_no_action imported_scene_next_id)
  next
    case (merge f imp a act)
    then show ?thesis
      by (simp add: merge_final_objects(2) [OF merge wf] imported_scene_next_id)
  qed
qed

lemma process_file_old:
  assumes wf: "wf_scene (scene st)" and i: "i < next_id (scene st)"
  shows "rig_view (scene (process_file env mid st p)) i = rig_view (scene st) i"
    and "\<exists>new. tracks_of (scene (process_file env mid st p)) i = tracks_of (scene st) i @ new
               \<and> (i \<noteq> mid \<longrightarrow> new = [])"
proof -
  have "rig_view (scene (process_file env mid st p)) i = rig_view (scene st) i
        \<and> (\<exists>new. tracks_of (scene (process_file env mid st p)) i = tracks_of (scene st) i @ new
               \<and> (i \<noteq> mid \<longrightarrow> new = []))"
  proof (cases rule: process_file_cases [where env = env and p = p and st = st and mid = mid])
    case (error e)
    then show ?thesis by (simp add: process_file_import_error)
  next
    case (no_action f)
    then show ?thesis
      by (cases "get_object (scene st) i")
        (simp_all add: process_file_no_action imported_old_object [OF i] rig_view_def tracks_of_def)
  next
    case (merge f imp a act)
    show ?thesis
    proof (cases "get_object (scene st) i")
      case None
      then show ?thesis
        by (simp add: merge_old_object [OF merge wf i] rig_view_def tracks_of_def)
    next
      case (Some ob)
      from get_object_wf [OF wf Some] have "ob_id ob = i" by simp
      with Some show ?thesis
        by (cases "animation_data ob")
          (simp_all add: merge_old_object [OF merge wf i] rig_view_def tracks_of_def with_track_def)
    qed
  qed
  then show "rig_view (scene (process_file env mid st p)) i = rig_view (scene st) i"
    and "\<exists>new. tracks_of (scene (process_file env mid st p)) i = tracks_of (scene st) i @ new
               \<and> (i \<noteq> mid \<longrightarrow> new = [])"
    by blast+
qed

lemma batch_old:
  assumes "wf_scene (scene st)" and "i < next_id (scene st)"
  shows "wf_scene (scene (foldl (process_file env mid) st ps))
       \<and> rig_view (scene (foldl (process_file env mid) st ps)) i = rig_view (scene st) i
       \<and> (\<exists>new. tracks_of (scene (foldl (process_file env mid) st ps)) i = tracks_of (scene st) i @ new
               \<and> (i \<noteq> mid \<longrightarrow> new = []))"
  using assms
proof (induction ps arbitrary: st)
  case Nil
  then show ?case by simp
next
  case (Cons p ps)
  let ?st1 = "process_file env mid st p"
  from process_file_wf [OF Cons.prems(1)] Cons.prems(2)
  have wf1: "wf_scene (scene ?st1)" and i1: "i < next_id (scene ?st1)"
    by (auto intro: less_le_trans)
  from Cons.IH [OF wf1 i1] process_file_old [OF Cons.prems, of env mid p]
  show ?case by auto
qed

text \<open>
  C8. In a well-formed scene that holds the master armature, the whole
  batch leaves the master in the scene with its name, type and parent, and
  the NLA tracks it had are still there, in order, before the ones added.
  The search for the imported armature never returns the master, and the
  cleanup removes exactly the objects whose identifier is that of the
  imported armature or whose parent it is.
\<close>

theorem master_armature_survives:
  assumes "wf_scene (scene st)" and "get_object (scene st) mid = Some m"
  shows "rig_view (scene (foldl (process_file env mid) st ps)) mid
           = Some (ob_name m, ob_type m, ob_parent m)
       \<and> (\<exists>new. tracks_of (scene (foldl (process_file env mid) st ps)) mid
                  = tracks_of (scene st) mid @ new)
       \<and> (\<forall>sc imp. find_imported_armature mid sc = Some imp \<longrightarrow> ob_id imp \<noteq> mid)
       \<and> (\<forall>imp st'. map ob_id (objects (scene (cleanup_imported imp st')))
                      = filter (\<lambda>i. i \<notin> set (doomed imp (scene st'))) (map ob_id (objects (scene st'))))"
proof (intro conjI allI impI)
  from get_object_wf [OF assms] have "mid < next_id (scene st)"
    by (auto simp: wf_object_def)
  from batch_old [OF assms(1) this, of env mid ps]
  have r: "rig_view (scene (foldl (process_file env mid) st ps)) mid = rig_view (scene st) mid"
    and t: "\<exists>new. tracks_of (scene (foldl (process_file env mid) st ps)) mid
                  = tracks_of (scene st) mid @ new"
    by blast+
  from r assms(2) show "rig_view (scene (foldl (process_file env mid) st ps)) mid
           = Some (ob_name m, ob_type m, ob_parent m)"
    by (simp add: rig_view_def)
  from t show "\<exists>new. tracks_of (scene (foldl (process_file env mid) st ps)) mid
                  = tracks_of (scene st) mid @ new" .
next
  fix sc imp assume "find_imported_armature mid sc = Some imp"
  then show "ob_id imp \<noteq> mid" by (rule find_imported_armature_Some)
next
  fix imp st'
  have "map ob_id (map (unparent D) (filter (\<lambda>ob. ob_id ob \<notin> S) (map deselect xs)))
        = filter (\<lambda>i. i \<notin> S) (map ob_id xs)" for D S and xs :: "bobject list"
    by (induction xs) simp_all
  then show "map ob_id (objects (scene (cleanup_imported imp st')))
                      = filter (\<lambda>i. i \<notin> set (doomed imp (scene st'))) (map ob_id (objects (scene st')))"
    by (simp add: cleanup_imported_eq)
qed

theorem master_armature_survives_witness:
  "wf_scene (scene (at_load demo_env demo_args))
   \<and> get_object (scene (at_load demo_env demo_args)) 1 = Some demo_rig
   \<and> rig_view (scene (foldl (process_file demo_env 1) (at_load demo_env demo_args)
                         (batch demo_env demo_args))) 1
       = Some (''Rig'', ARMATURE, None)"
proof -
  have w: "wf_scene (scene (at_load demo_env demo_args))" by code_simp
  have g: "get_object (scene (at_load demo_env demo_args)) 1 = Some demo_rig" by code_simp
  from master_armature_survives [OF w g, of demo_env "batch demo_env demo_args"] w g
  show ?thesis by (simp add: demo_rig_def)
qed

lemma process_file_success_count:
  "success_count (process_file env mid st p) =
     (case fbx_file env (normalize_path env p) of
        Inl e \<Rightarrow> success_count st
      | Inr f \<Rightarrow>
          (case usable_action (imported_scene f (scene st))
                  (find_imported_armature mid (imported_scene f (scene st))) of
             None \<Rightarrow> success_count st
           | Some t \<Rightarrow> success_count st + 1))"
  by (simp add: process_file_def Let_def import_scene_fbx_def imported_scene_def print_def call_def
      merge_action_def cleanup_imported_eq split: sum.splits option.splits)





subsection \<open>One merge, and the choice of the master\<close>

lemma map_of_rename:
  "map_of (map (\<lambda>(i, x). if i = a then (i, g x) else (i, x)) xs) a = map_option g (map_of xs a)"
  by (induction xs) auto

text \<open>
  C3, as amended. For a file whose import succeeds and gives a selected
  armature other than the master with an action, in a well-formed scene that
  holds the master, one turn of the loop makes these host calls in this
  order: the import; the renaming of the action to the file's base name
  without extension; the creation of the master's animation data if it has
  none; a new NLA track on the master and on it a strip named after the file,
  starting at the integer part of the action's first frame and holding the
  action; deselect all, select the imported armature and every object whose
  parent it is, delete. Afterwards the action bears the new name, the
  master's tracks are the former ones followed by the new one, the
  identifiers left in the scene are those not selected, no object left is the
  imported armature or has it as parent, and the success count is one more.
\<close>

theorem merge_step:
  assumes f: "fbx_file env (normalize_path env p) = Inr f"
    and u: "usable_action (imported_scene f (scene st))
              (find_imported_armature mid (imported_scene f (scene st))) = Some (imp, a, act)"
    and wf: "wf_scene (scene st)"
    and m: "get_object (scene st) mid = Some m"
  shows "calls (process_file env mid st p) =
           calls st @ [ImportFbx (normalize_path env p), ActionSetName a (anim_name_of env p)] @
           (if animation_data m = None then [AnimationDataCreate mid] else []) @
           [NlaTracksNew mid,
            StripsNew mid (anim_name_of env p) (py_int (fst (frame_range act))) a,
            SelectAllDeselect] @
           map SelectSet (doomed (ob_id imp) (imported_scene f (scene st))) @ [ObjectDelete]
       \<and> anim_name_of env p = fst (splitext (platform env) (basename (platform env) p))
       \<and> map_of (actions (scene (process_file env mid st p))) a
           = Some (act\<lparr>act_name := anim_name_of env p\<rparr>)
       \<and> tracks_of (scene (process_file env mid st p)) mid
           = tracks_of (scene st) mid @
             [new_track (anim_name_of env p) (py_int (fst (frame_range act))) a]
       \<and> ob_id imp \<in> set (doomed (ob_id imp) (imported_scene f (scene st)))
       \<and> map ob_id (objects (scene (process_file env mid st p)))
           = filter (\<lambda>i. i \<notin> set (doomed (ob_id imp) (imported_scene f (scene st))))
               (map ob_id (objects (imported_scene f (scene st))))
       \<and> list_all (\<lambda>ob. ob_id ob \<noteq> ob_id imp \<and> ob_parent ob \<noteq> Some (ob_id imp))
           (objects (scene (process_file env mid st p)))
       \<and> success_count (process_file env mid st p) = success_count st + 1"
proof (intro conjI)
  let ?sc1 = "imported_scene f (scene st)"
  let ?D = "doomed (ob_id imp) ?sc1"
  let ?W = "\<lambda>ob. if ob_id ob = mid
                   then with_track (new_track (anim_name_of env p) (py_int (fst (frame_range act))) a) ob
                   else ob"
  from get_object_wf [OF wf m] have i: "mid < next_id (scene st)" and id: "ob_id m = mid"
    by (auto simp: wf_object_def)
  have cc: "create_calls ?sc1 mid = (if animation_data m = None then [AnimationDataCreate mid] else [])"
    using m by (simp add: create_calls_def imported_old_object [OF i])
  show "calls (process_file env mid st p) =
           calls st @ [ImportFbx (normalize_path env p), ActionSetName a (anim_name_of env p)] @
           (if animation_data m = None then [AnimationDataCreate mid] else []) @
           [NlaTracksNew mid,
            StripsNew mid (anim_name_of env p) (py_int (fst (frame_range act))) a,
            SelectAllDeselect] @
           map SelectSet ?D @ [ObjectDelete]"
    unfolding process_file_merge [OF f u wf] cleanup_imported_eq
    by (simp add: cc doomed_merged)
  show "anim_name_of env p = fst (splitext (platform env) (basename (platform env) p))"
    by (simp add: anim_name_of_def)
  from usable_action_Some(2) [OF u]
  show "map_of (actions (scene (process_file env mid st p))) a
           = Some (act\<lparr>act_name := anim_name_of env p\<rparr>)"
    by (simp add: merge_final_objects(3) [OF f u wf] action_set_name_def map_of_rename)
  show "tracks_of (scene (process_file env mid st p)) mid
           = tracks_of (scene st) mid @
             [new_track (anim_name_of env p) (py_int (fst (frame_range act))) a]"
    using m id
    by (cases "animation_data m")
      (simp_all add: merge_old_object [OF f u wf i] tracks_of_def with_track_def)
  from usable_action_Some(1) [OF u] have fi: "find_imported_armature mid ?sc1 = Some imp" .
  from find_imported_armature_Some(1) [OF fi]
  show inD: "ob_id imp \<in> set ?D" by (auto simp: doomed_def)
  have W: "ob_id (?W ob) = ob_id ob" for ob by simp
  show "map ob_id (objects (scene (process_file env mid st p)))
           = filter (\<lambda>i. i \<notin> set ?D) (map ob_id (objects ?sc1))"
    unfolding merge_final_objects(1) [OF f u wf] by (rule ids_after_cleanup [of ?W, OF W])
  have "ob_id ob \<noteq> ob_id imp \<and> ob_parent ob \<noteq> Some (ob_id imp)"
    if "ob \<in> set (objects (scene (process_file env mid st p)))" for ob
  proof -
    from that obtain x where ob: "ob = unparent ?D x" and x: "ob_id x \<notin> set ?D"
      unfolding merge_final_objects(1) [OF f u wf] by auto
    from x inD have "ob_id ob \<noteq> ob_id imp" by (auto simp: ob)
    moreover have "ob_parent ob \<noteq> Some (ob_id imp)"
      using inD by (cases "ob_parent x") (auto simp: ob unparent_def)
    ultimately show ?thesis ..
  qed
  then show "list_all (\<lambda>ob. ob_id ob \<noteq> ob_id imp \<and> ob_parent ob \<noteq> Some (ob_id imp))
           (objects (scene (process_file env mid st p)))"
    by (simp add: list_all_iff)
  show "success_count (process_file env mid st p) = success_count st + 1"
    using f u by (simp add: process_file_success_count)
qed

theorem merge_step_witness:
  "fbx_file demo_env (normalize_path demo_env ''/anims/walk.fbx'') = Inr walk_fbx
   \<and> wf_scene (scene (at_load demo_env demo_args))
   \<and> get_object (scene (at_load demo_env demo_args)) 1 = Some demo_rig
   \<and> calls (process_file demo_env 1 (at_load demo_env demo_args) ''/anims/walk.fbx'')
       = [ReadHomefile, OpenMainfile ''/m.blend'', ImportFbx ''/anims/walk.fbx'',
          ActionSetName 6 ''walk'', AnimationDataCreate 1, NlaTracksNew 1, StripsNew 1 ''walk'' 1 6,
          SelectAllDeselect, SelectSet 3, SelectSet 4, ObjectDelete]
   \<and> tracks_of (scene (process_file demo_env 1 (at_load demo_env demo_args) ''/anims/walk.fbx'')) 1
       = [new_track ''walk'' 1 6]
   \<and> success_count (process_file demo_env 1 (at_load demo_env demo_args) ''/anims/walk.fbx'') = 1"
proof -
  have f: "fbx_file demo_env (normalize_path demo_env ''/anims/walk.fbx'') = Inr walk_fbx"
    by code_simp
  have u: "usable_action (imported_scene walk_fbx (scene (at_load demo_env demo_args)))
              (find_imported_armature 1 (imported_scene walk_fbx (scene (at_load demo_env demo_args))))
             = Some (walk_armature, 6, walk_action)"
    by code_simp
  have w: "wf_scene (scene (at_load demo_env demo_args))" by code_simp
  have g: "get_object (scene (at_load demo_env demo_args)) 1 = Some demo_rig" by code_simp
  have n: "anim_name_of demo_env ''/anims/walk.fbx'' = ''walk''" by code_simp
  have np: "normalize_path demo_env ''/anims/walk.fbx'' = ''/anims/walk.fbx''" by code_simp
  have d: "doomed (ob_id walk_armature) (imported_scene walk_fbx (scene (at_load demo_env demo_args)))
            = [3, 4]" by code_simp
  have fr: "py_int (fst (frame_range walk_action)) = 1" by code_simp
  have t0: "tracks_of (scene (at_load demo_env demo_args)) 1 = []" by code_simp
  have c0: "calls (at_load demo_env demo_args) = [ReadHomefile, OpenMainfile ''/m.blend'']"
    by code_simp
  have s0: "success_count (at_load demo_env demo_args) = 0" by code_simp
  have a0: "animation_data demo_rig = None" by code_simp
  from merge_step [OF f u w g] f w g n np d fr t0 c0 s0 a0 show ?thesis by simp
qed

text \<open>
  C3, as stated: after the turn for a file no imported object remains in
  the scene, whether or not the merge took place. In the small run the turn
  for the clip without animation leaves the armature it imported in the
  scene.
\<close>

theorem imported_objects_remain_counterexample:
  "\<not> (\<forall>env mid st p.
         list_all (\<lambda>ob. ob_id ob < next_id (scene st)) (objects (scene (process_file env mid st p))))"
proof
  assume "\<forall>env mid st p.
         list_all (\<lambda>ob. ob_id ob < next_id (scene st)) (objects (scene (process_file env mid st p)))"
  then have "list_all (\<lambda>ob. ob_id ob < next_id (scene (at_load demo_env demo_args)))
          (objects (scene (process_file demo_env 1 (at_load demo_env demo_args) ''/anims/static.FBX'')))"
    by blast
  moreover have "\<not> list_all (\<lambda>ob. ob_id ob < next_id (scene (at_load demo_env demo_args)))
          (objects (scene (process_file demo_env 1 (at_load demo_env demo_args) ''/anims/static.FBX'')))"
    by code_simp
  ultimately show False by blast
qed






lemma merge_all_as_fold:
  "scene (merge_all env mid ps st)
     = scene (foldl (process_file env mid) (print (Processing (length ps)) (st\<lparr>success_count := 0\<rparr>)) ps)
   \<and> success_count (merge_all env mid ps st)
     = success_count (foldl (process_file env mid) (print (Processing (length ps)) (st\<lparr>success_count := 0\<rparr>)) ps)"
  by (cases ps) (simp_all add: merge_all_def Let_def print_def)




subsection \<open>Files that are skipped\<close>

lemma import_calls_process_file:
  "import_calls (calls (process_file env mid st p))
     = import_calls (calls st) @ [ImportFbx (normalize_path env p)]"
  by (simp add: process_file_def Let_def import_scene_fbx_def print_def call_def
      merge_action_def cleanup_imported_eq import_calls_def split: sum.splits option.splits)

lemma import_calls_batch:
  "import_calls (calls (foldl (process_file env mid) st ps))
     = import_calls (calls st) @ map (\<lambda>p. ImportFbx (normalize_path env p)) ps"
  by (induction ps arbitrary: st) (simp_all add: import_calls_process_file)

lemma import_calls_merge_all:
  "import_calls (calls (merge_all env mid ps st))
     = import_calls (calls st) @ map (\<lambda>p. ImportFbx (normalize_path env p)) ps"
  by (cases ps) (simp_all add: merge_all_def Let_def import_calls_batch import_calls_process_file)

lemma success_count_step:
  "success_count (process_file env mid st p) \<le> success_count st + 1"
  by (simp add: process_file_success_count split: sum.splits option.splits)

lemma success_count_batch:
  "success_count (foldl (process_file env mid) st ps) \<le> success_count st + length ps"
proof (induction ps arbitrary: st)
  case Nil
  then show ?case by simp
next
  case (Cons p ps)
  from Cons.IH [of "process_file env mid st p"] success_count_step [of env mid st p]
  show ?case by simp
qed

lemma all_failing_batch:
  assumes "\<forall>p \<in> set ps. \<exists>e. fbx_file env (normalize_path env p) = Inl e"
  shows "success_count (foldl (process_file env mid) st ps) = success_count st
       \<and> scene (foldl (process_file env mid) st ps) = scene st"
  using assms
proof (induction ps arbitrary: st)
  case Nil
  then show ?case by simp
next
  case (Cons p ps)
  then obtain e where e: "fbx_file env (normalize_path env p) = Inl e" by auto
  then have "success_count (process_file env mid st p) = success_count st"
    and "scene (process_file env mid st p) = scene st"
    by (simp_all add: process_file_success_count process_file_import_error)
  with Cons.IH [of "process_file env mid st p"] Cons.prems show ?case by simp
qed

text \<open>
  C2. In a run that gets to the batch, every file of the batch is
  imported, in order, whatever happened to the files before it; the success
  count is at most the number of files, and it is 0, with the scene as
  loaded, when every import raises; the run then goes on to the export, which
  is its last host call, and completes exactly when the output file exists
  afterwards. One turn of the loop on a file whose import raises changes
  nothing but the log and the list of host calls; on a file that imports but
  gives no selected armature other than the master, or one without animation
  data, or without an action, it prints the warning, keeps the imported
  scene and leaves the success count as it was.
\<close>

theorem skipped_files_batch:
  assumes p: "parse_args (script_argv (sys_argv env)) = Parsed a"
    and e: "path_exists env (master_path env a)"
    and m: "find_master_armature (loaded env a) = Some m"
  shows "import_calls (calls (snd (main env)))
           = map (\<lambda>p. ImportFbx (normalize_path env p)) (batch env a)
       \<and> success_count (snd (main env)) \<le> length (batch env a)
       \<and> ((\<forall>p \<in> set (batch env a). \<exists>e. fbx_file env (normalize_path env p) = Inl e) \<longrightarrow>
            success_count (snd (main env)) = 0 \<and> scene (snd (main env)) = loaded env a)
       \<and> (fst (main env) = Completed) =
            exists_after_export env (export_params (output_path env a)) (scene (snd (main env)))
              (output_path env a)
       \<and> (fst (main env) = Completed \<or> fst (main env) = SysExit 1)
       \<and> last (calls (snd (main env))) = ExportGltf (export_params (output_path env a))
       \<and> (fbx_file env (normalize_path env q) = Inl err \<longrightarrow>
            process_file env mid st q =
              st\<lparr>printed := printed st @
                    [Importing (anim_name_of env q), ErrorImporting (anim_name_of env q) err],
                 calls := calls st @ [ImportFbx (normalize_path env q)]\<rparr>)
       \<and> (fbx_file env (normalize_path env q) = Inr f
            \<and> usable_action (imported_scene f (scene st))
                 (find_imported_armature mid (imported_scene f (scene st))) = None \<longrightarrow>
            process_file env mid st q =
              st\<lparr>scene := imported_scene f (scene st),
                 printed := printed st @
                    [Importing (anim_name_of env q), WarningNoAnimationData (anim_name_of env q)],
                 calls := calls st @ [ImportFbx (normalize_path env q)]\<rparr>)
       \<and> usable_action sc None = None
       \<and> (animation_data imp = None \<longrightarrow> usable_action sc (Some imp) = None)
       \<and> (animation_data imp = Some ad \<and> ad_action ad = None \<longrightarrow>
            usable_action sc (Some imp) = None)"
proof -
  let ?st0 = "print (Processing (length (batch env a))) ((at_batch env a m)\<lparr>success_count := 0\<rparr>)"
  from main_parsed [OF p] e m
  have mn: "main env = export_result env (output_path env a)
              (list_actions (merge_all env (ob_id m) (batch env a) (at_batch env a m)))"
    by simp
  have ic: "import_calls (calls (at_batch env a m)) = []"
    by (simp add: at_batch_def at_load_def import_calls_def)
  have sc: "scene (snd (main env)) = scene (foldl (process_file env (ob_id m)) ?st0 (batch env a))"
    and su: "success_count (snd (main env))
              = success_count (foldl (process_file env (ob_id m)) ?st0 (batch env a))"
    using merge_all_as_fold [of env "ob_id m" "batch env a" "at_batch env a m"]
    by (simp_all add: mn export_result_cases list_actions_frame)
  have s0: "scene ?st0 = loaded env a" "success_count ?st0 = 0"
    "scene (at_batch env a m) = loaded env a"
    by (simp_all add: at_batch_def at_load_def print_def)
  note per_file = process_file_skips [of env q err mid st f sc imp ad]
  have main_level: "import_calls (calls (snd (main env)))
           = map (\<lambda>p. ImportFbx (normalize_path env p)) (batch env a)
       \<and> success_count (snd (main env)) \<le> length (batch env a)
       \<and> ((\<forall>p \<in> set (batch env a). \<exists>e. fbx_file env (normalize_path env p) = Inl e) \<longrightarrow>
            success_count (snd (main env)) = 0 \<and> scene (snd (main env)) = loaded env a)
       \<and> (fst (main env) = Completed) =
            exists_after_export env (export_params (output_path env a)) (scene (snd (main env)))
              (output_path env a)
       \<and> (fst (main env) = Completed \<or> fst (main env) = SysExit 1)
       \<and> last (calls (snd (main env))) = ExportGltf (export_params (output_path env a))"
  proof (intro conjI impI)
    show "import_calls (calls (snd (main env)))
           = map (\<lambda>p. ImportFbx (normalize_path env p)) (batch env a)"
      by (simp add: mn export_result_cases list_actions_frame import_calls_merge_all ic)
         (simp add: import_calls_def)
    from success_count_batch [of env "ob_id m" ?st0 "batch env a"]
    show "success_count (snd (main env)) \<le> length (batch env a)"
      by (simp add: su s0)
    show "(fst (main env) = Completed) =
            exists_after_export env (export_params (output_path env a)) (scene (snd (main env)))
              (output_path env a)"
      by (simp add: mn export_result_cases)
    show "fst (main env) = Completed \<or> fst (main env) = SysExit 1"
      by (simp add: mn export_result_cases)
    show "last (calls (snd (main env))) = ExportGltf (export_params (output_path env a))"
      by (simp add: mn export_result_cases)
  next
    assume "\<forall>p \<in> set (batch env a). \<exists>e. fbx_file env (normalize_path env p) = Inl e"
    from all_failing_batch [OF this, of "ob_id m" ?st0]
    show "success_count (snd (main env)) = 0" and "scene (snd (main env)) = loaded env a"
      by (simp_all add: sc su s0)
  qed
  from main_level per_file show ?thesis by blast
qed

theorem skipped_files_batch_witness:
  "import_calls (calls (snd (main demo_env)))
     = [ImportFbx ''/anims/broken.fbx'', ImportFbx ''/anims/static.FBX'', ImportFbx ''/anims/walk.fbx'']
   \<and> printed (snd (main demo_env))
     = [Configuration ''/m.blend'' ''/anims'' ''/out/cortex.glb'', ClearingScene,
        OpeningMaster ''/m.blend'', MasterLoaded, TargetRig ''Rig'', Processing 3,
        Importing ''broken'', ErrorImporting ''broken'' ''not an FBX file'',
        Importing ''static'', WarningNoAnimationData ''static'',
        Importing ''walk'', Merged ''walk'' 1 30, SuccessfullyMerged 1 3,
        FinalActions 1, FinalAction ''walk'' 1 30,
        ExportingGLB ''/out/cortex.glb'', ExportSuccess ''/out/cortex.glb'', PipelineComplete 1]
   \<and> success_count (snd (main demo_env)) = 1
   \<and> fst (main demo_env) = Completed"
proof -
  have p: "parse_args (script_argv (sys_argv demo_env)) = Parsed demo_args" by code_simp
  have e: "path_exists demo_env (master_path demo_env demo_args)" by code_simp
  have m: "find_master_armature (loaded demo_env demo_args) = Some demo_rig" by code_simp
  have b: "map (\<lambda>p. ImportFbx (normalize_path demo_env p)) (batch demo_env demo_args)
      = [ImportFbx ''/anims/broken.fbx'', ImportFbx ''/anims/static.FBX'', ImportFbx ''/anims/walk.fbx'']"
    by code_simp
  have l: "printed (snd (main demo_env))
     = [Configuration ''/m.blend'' ''/anims'' ''/out/cortex.glb'', ClearingScene,
        OpeningMaster ''/m.blend'', MasterLoaded, TargetRig ''Rig'', Processing 3,
        Importing ''broken'', ErrorImporting ''broken'' ''not an FBX file'',
        Importing ''static'', WarningNoAnimationData ''static'',
        Importing ''walk'', Merged ''walk'' 1 30, SuccessfullyMerged 1 3,
        FinalActions 1, FinalAction ''walk'' 1 30,
        ExportingGLB ''/out/cortex.glb'', ExportSuccess ''/out/cortex.glb'', PipelineComplete 1]"
    by code_simp
  have s: "success_count (snd (main demo_env)) = 1" by code_simp
  have x: "exists_after_export demo_env (export_params (output_path demo_env demo_args))
             (scene (snd (main demo_env))) (output_path demo_env demo_args)"
    by (simp add: demo_env_def export_params_def)
  from skipped_files_batch [OF p e m] b l s x show ?thesis by simp
qed

end
